theory Spec2Isabelle
  imports Complex_Main
begin

section \<open>Errors\<close>

text \<open>
  The exceptions the encoder can raise, as values. \<open>RuntimeError\<close> is what torch raises
  on a shape it cannot accept, \<open>IndexError\<close> on an index or dimension out of range,
  \<open>ValueError\<close> is Python's failed tuple unpacking, \<open>ZeroDivisionError\<close> Python's
  integer division by zero.
\<close>

datatype error = RuntimeError | IndexError | ValueError | ZeroDivisionError

definition bindE :: "error + 'a \<Rightarrow> ('a \<Rightarrow> error + 'b) \<Rightarrow> error + 'b" where
  "bindE r f = (case r of Inl e \<Rightarrow> Inl e | Inr x \<Rightarrow> f x)"

section \<open>Numbers\<close>

text \<open>
  A tensor element is a float32 of IEEE 754: a finite value, one of the two infinities, or
  not-a-number. A finite value is the real number it denotes, and there is one zero. The
  result of an operation on finite values is the exact result rounded to the nearest
  float32, ties to the even significand, and an infinity when that is out of range; on the
  special values the operations follow IEEE 754.
\<close>

datatype fl = Fin real | PInf | NInf | NaN

text \<open>The nearest integer, ties to the even one.\<close>

definition rne :: "real \<Rightarrow> int" where
  "rne y = (let n = \<lfloor>y\<rfloor>; r = y - of_int n in
     if r < 1 / 2 then n else if 1 / 2 < r then n + 1 else if even n then n else n + 1)"

text \<open>
  The exponent of the unit in the last place at \<open>x\<close>: a float32 has 24 significant bits,
  and below \<open>2 powi (- 126)\<close> the unit stays \<open>2 powi (- 149)\<close>.
\<close>

definition ulp_exp :: "real \<Rightarrow> int" where
  "ulp_exp x = max (- 149) (\<lfloor>log 2 \<bar>x\<bar>\<rfloor> - 23)"

text \<open>
  The nearest multiple of that unit, and the float32 that \<open>x\<close> rounds to: an infinity
  when the nearest multiple has left the range, which ends below \<open>2 ^ 128\<close>.
\<close>

definition nearest :: "real \<Rightarrow> real" where
  "nearest x = of_int (rne (x / 2 powi ulp_exp x)) * 2 powi ulp_exp x"

definition rnd :: "real \<Rightarrow> fl" where
  "rnd x = (if 2 ^ 128 \<le> \<bar>nearest x\<bar> then (if 0 < x then PInf else NInf)
            else Fin (nearest x))"

text \<open>The float32 numbers among the finite values are those that rounding leaves alone.\<close>

definition float32 :: "fl \<Rightarrow> bool" where
  "float32 x = (case x of Fin a \<Rightarrow> rnd a = Fin a | _ \<Rightarrow> True)"

fun fneg :: "fl \<Rightarrow> fl" where
  "fneg (Fin a) = Fin (- a)"
| "fneg PInf = NInf"
| "fneg NInf = PInf"
| "fneg NaN = NaN"

fun fadd :: "fl \<Rightarrow> fl \<Rightarrow> fl" where
  "fadd (Fin a) (Fin b) = rnd (a + b)"
| "fadd NaN _ = NaN"
| "fadd _ NaN = NaN"
| "fadd PInf NInf = NaN"
| "fadd NInf PInf = NaN"
| "fadd PInf _ = PInf"
| "fadd _ PInf = PInf"
| "fadd NInf _ = NInf"
| "fadd _ NInf = NInf"

definition fsub :: "fl \<Rightarrow> fl \<Rightarrow> fl" where
  "fsub a b = fadd a (fneg b)"

text \<open>The sign of an infinity times a finite factor; zero times infinity is not a number.\<close>

definition inf_scaled :: "bool \<Rightarrow> real \<Rightarrow> fl" where
  "inf_scaled positive b =
     (if b = 0 then NaN else if (0 < b) = positive then PInf else NInf)"

fun fmul :: "fl \<Rightarrow> fl \<Rightarrow> fl" where
  "fmul (Fin a) (Fin b) = rnd (a * b)"
| "fmul NaN _ = NaN"
| "fmul _ NaN = NaN"
| "fmul PInf (Fin b) = inf_scaled True b"
| "fmul (Fin a) PInf = inf_scaled True a"
| "fmul NInf (Fin b) = inf_scaled False b"
| "fmul (Fin a) NInf = inf_scaled False a"
| "fmul PInf PInf = PInf"
| "fmul NInf NInf = PInf"
| "fmul PInf NInf = NInf"
| "fmul NInf PInf = NInf"

fun fdiv :: "fl \<Rightarrow> fl \<Rightarrow> fl" where
  "fdiv (Fin a) (Fin b) =
     (if b = 0 then (if a = 0 then NaN else if 0 < a then PInf else NInf) else rnd (a / b))"
| "fdiv NaN _ = NaN"
| "fdiv _ NaN = NaN"
| "fdiv (Fin a) PInf = Fin 0"
| "fdiv (Fin a) NInf = Fin 0"
| "fdiv PInf (Fin b) = (if 0 \<le> b then PInf else NInf)"
| "fdiv NInf (Fin b) = (if 0 \<le> b then NInf else PInf)"
| "fdiv PInf PInf = NaN"
| "fdiv PInf NInf = NaN"
| "fdiv NInf PInf = NaN"
| "fdiv NInf NInf = NaN"

fun fexp :: "fl \<Rightarrow> fl" where
  "fexp (Fin a) = rnd (exp a)"
| "fexp PInf = PInf"
| "fexp NInf = Fin 0"
| "fexp NaN = NaN"

fun fsqrt :: "fl \<Rightarrow> fl" where
  "fsqrt (Fin a) = (if a < 0 then NaN else rnd (sqrt a))"
| "fsqrt PInf = PInf"
| "fsqrt NInf = NaN"
| "fsqrt NaN = NaN"

text \<open>The larger of two values; not-a-number if one of them is.\<close>

fun fmax :: "fl \<Rightarrow> fl \<Rightarrow> fl" where
  "fmax (Fin a) (Fin b) = Fin (max a b)"
| "fmax NaN _ = NaN"
| "fmax _ NaN = NaN"
| "fmax PInf _ = PInf"
| "fmax _ PInf = PInf"
| "fmax NInf b = b"
| "fmax a NInf = a"

text \<open>
  A reduction adds up its terms from the first one on, each addition rounded; the empty
  sum is zero.
\<close>

fun fsum :: "fl list \<Rightarrow> fl" where
  "fsum [] = Fin 0"
| "fsum (x # xs) = foldl fadd x xs"

text \<open>The sum, and the largest, of \<open>f 0\<close>, ..., \<open>f (n - 1)\<close>, in this order.\<close>

definition fsum_upto :: "nat \<Rightarrow> (nat \<Rightarrow> fl) \<Rightarrow> fl" where
  "fsum_upto n f = fsum (map f [0..<n])"

definition fmax_upto :: "nat \<Rightarrow> (nat \<Rightarrow> fl) \<Rightarrow> fl" where
  "fmax_upto n f = foldl fmax NInf (map f [0..<n])"

fun is_fin :: "fl \<Rightarrow> bool" where
  "is_fin (Fin a) = True"
| "is_fin _ = False"


section \<open>Tensors\<close>

text \<open>
  A tensor is its shape and its elements in row-major order, the order in which torch
  reads a tensor when it reshapes it.
\<close>

record 'a tensor =
  shape :: "nat list"
  data :: "'a list"

definition numel :: "nat list \<Rightarrow> nat" where
  "numel s = prod_list s"

definition wft :: "'a tensor \<Rightarrow> bool" where
  "wft t = (length (data t) = numel (shape t))"

fun ravel :: "nat list \<Rightarrow> nat list \<Rightarrow> nat" where
  "ravel (d # ds) (i # is) = i * prod_list ds + ravel ds is"
| "ravel _ _ = 0"

fun unravel :: "nat list \<Rightarrow> nat \<Rightarrow> nat list" where
  "unravel [] n = []"
| "unravel (d # ds) n = (n div prod_list ds) # unravel ds (n mod prod_list ds)"

fun valid_index :: "nat list \<Rightarrow> nat list \<Rightarrow> bool" where
  "valid_index [] [] = True"
| "valid_index (d # ds) (i # is) = (i < d \<and> valid_index ds is)"
| "valid_index _ _ = False"

definition elt :: "'a tensor \<Rightarrow> nat list \<Rightarrow> 'a" where
  "elt t idx = data t ! ravel (shape t) idx"

definition tab :: "nat list \<Rightarrow> (nat list \<Rightarrow> 'a) \<Rightarrow> 'a tensor" where
  "tab s f = \<lparr>shape = s, data = map (\<lambda>n. f (unravel s n)) [0..<numel s]\<rparr>"

section \<open>The tensor operations of torch that the encoder uses\<close>

text \<open>\<^verbatim>\<open>t.shape[i]\<close>: indexing the shape tuple.\<close>

definition dim_size :: "'a tensor \<Rightarrow> nat \<Rightarrow> error + nat" where
  "dim_size t i = (if i < length (shape t) then Inr (shape t ! i) else Inl IndexError)"

definition swap :: "nat \<Rightarrow> nat \<Rightarrow> 'b list \<Rightarrow> 'b list" where
  "swap i j xs = xs[i := xs ! j, j := xs ! i]"

text \<open>\<^verbatim>\<open>t.transpose(d0, d1)\<close>.\<close>

definition transpose_dims :: "nat \<Rightarrow> nat \<Rightarrow> 'a tensor \<Rightarrow> error + 'a tensor" where
  "transpose_dims d0 d1 t =
     (if d0 < length (shape t) \<and> d1 < length (shape t)
      then Inr (tab (swap d0 d1 (shape t)) (\<lambda>idx. elt t (swap d0 d1 idx)))
      else Inl IndexError)"

text \<open>
  The shape a \<^verbatim>\<open>reshape\<close> produces for a tensor of \<open>n\<close> elements: at most one
  dimension is \<open>-1\<close> and is inferred; it cannot be inferred when the known dimensions
  multiply to zero or do not divide \<open>n\<close>.
\<close>

definition infer_size :: "int list \<Rightarrow> nat \<Rightarrow> error + nat list" where
  "infer_size target n =
     (let known = filter (\<lambda>d. d \<noteq> - 1) target; p = nat (prod_list known) in
      if list_ex (\<lambda>d. d < - 1) target \<or> 1 < length (filter (\<lambda>d. d = - 1) target)
      then Inl RuntimeError
      else if length known = length target
      then (if p = n then Inr (map nat target) else Inl RuntimeError)
      else if p = 0 \<or> n mod p \<noteq> 0 then Inl RuntimeError
      else Inr (map (\<lambda>d. if d = - 1 then n div p else nat d) target))"

definition reshape :: "int list \<Rightarrow> 'a tensor \<Rightarrow> error + 'a tensor" where
  "reshape target t =
     bindE (infer_size target (numel (shape t))) (\<lambda>s. Inr \<lparr>shape = s, data = data t\<rparr>)"

text \<open>\<^verbatim>\<open>t.unsqueeze(d)\<close> and \<^verbatim>\<open>t.squeeze(d)\<close>; the latter leaves a dimension
  whose size is not 1 in place.\<close>

definition unsqueeze :: "nat \<Rightarrow> 'a tensor \<Rightarrow> error + 'a tensor" where
  "unsqueeze d t =
     (if d \<le> length (shape t)
      then Inr \<lparr>shape = take d (shape t) @ [1] @ drop d (shape t), data = data t\<rparr>
      else Inl IndexError)"

definition squeeze :: "nat \<Rightarrow> 'a tensor \<Rightarrow> error + 'a tensor" where
  "squeeze d t =
     (if d < length (shape t)
      then Inr (if shape t ! d = 1
                then \<lparr>shape = take d (shape t) @ drop (Suc d) (shape t), data = data t\<rparr>
                else t)
      else Inl IndexError)"

text \<open>\<^verbatim>\<open>t[:, :, None, None]\<close>: two new axes of size 1 after the first two.\<close>

definition index_none2 :: "'a tensor \<Rightarrow> error + 'a tensor" where
  "index_none2 t =
     (if 2 \<le> length (shape t)
      then Inr \<lparr>shape = take 2 (shape t) @ [1, 1] @ drop 2 (shape t), data = data t\<rparr>
      else Inl IndexError)"

subsection \<open>Broadcasting\<close>

text \<open>
  Two shapes broadcast when, aligned at their last dimensions, each pair of sizes is
  equal or has a 1. \<open>bidx s idx\<close> is where an operand of shape \<open>s\<close> is read for the
  index \<open>idx\<close> of the broadcast result.
\<close>

fun broadcast_rev :: "nat list \<Rightarrow> nat list \<Rightarrow> error + nat list" where
  "broadcast_rev [] ys = Inr ys"
| "broadcast_rev xs [] = Inr xs"
| "broadcast_rev (x # xs) (y # ys) =
     (if x = y \<or> y = 1 then bindE (broadcast_rev xs ys) (\<lambda>r. Inr (x # r))
      else if x = 1 then bindE (broadcast_rev xs ys) (\<lambda>r. Inr (y # r))
      else Inl RuntimeError)"

definition broadcast_shapes :: "nat list \<Rightarrow> nat list \<Rightarrow> error + nat list" where
  "broadcast_shapes a b = bindE (broadcast_rev (rev a) (rev b)) (\<lambda>r. Inr (rev r))"

definition pick :: "nat \<Rightarrow> nat \<Rightarrow> nat" where
  "pick d i = (if d = 1 then 0 else i)"

definition bidx :: "nat list \<Rightarrow> nat list \<Rightarrow> nat list" where
  "bidx s idx = map2 pick s (drop (length idx - length s) idx)"

definition binary :: "('a \<Rightarrow> 'b \<Rightarrow> 'c) \<Rightarrow> 'a tensor \<Rightarrow> 'b tensor \<Rightarrow> error + 'c tensor" where
  "binary f a b =
     bindE (broadcast_shapes (shape a) (shape b)) (\<lambda>s.
       Inr (tab s (\<lambda>idx. f (elt a (bidx (shape a) idx)) (elt b (bidx (shape b) idx)))))"

definition add :: "fl tensor \<Rightarrow> fl tensor \<Rightarrow> error + fl tensor" where
  "add a b = binary fadd a b"

definition mul :: "fl tensor \<Rightarrow> fl tensor \<Rightarrow> error + fl tensor" where
  "mul a b = binary fmul a b"

text \<open>\<^verbatim>\<open>a += b\<close>: in place, so the broadcast shape has to be the shape of \<open>a\<close>.\<close>

definition iadd :: "fl tensor \<Rightarrow> fl tensor \<Rightarrow> error + fl tensor" where
  "iadd a b =
     bindE (broadcast_shapes (shape a) (shape b)) (\<lambda>s.
       if s = shape a then binary fadd a b else Inl RuntimeError)"

text \<open>\<^verbatim>\<open>torch.where(cond, x, y)\<close>: the three operands broadcast together.\<close>

definition where_t :: "bool tensor \<Rightarrow> 'a tensor \<Rightarrow> 'a tensor \<Rightarrow> error + 'a tensor" where
  "where_t cond x y =
     bindE (broadcast_shapes (shape cond) (shape x)) (\<lambda>s1.
     bindE (broadcast_shapes s1 (shape y)) (\<lambda>s.
       Inr (tab s (\<lambda>idx. if elt cond (bidx (shape cond) idx)
                          then elt x (bidx (shape x) idx)
                          else elt y (bidx (shape y) idx)))))"

definition pointwise :: "('a \<Rightarrow> 'b) \<Rightarrow> 'a tensor \<Rightarrow> 'b tensor" where
  "pointwise f t = tab (shape t) (\<lambda>idx. f (elt t idx))"

definition zeros :: "nat list \<Rightarrow> fl tensor" where
  "zeros s = tab s (\<lambda>_. Fin 0)"

definition ones :: "nat list \<Rightarrow> fl tensor" where
  "ones s = tab s (\<lambda>_. Fin 1)"

text \<open>A tensor times, or divided by, a Python float.\<close>

definition mul_scalar :: "fl tensor \<Rightarrow> fl \<Rightarrow> fl tensor" where
  "mul_scalar t c = pointwise (\<lambda>v. fmul v c) t"

definition div_scalar :: "fl tensor \<Rightarrow> fl \<Rightarrow> fl tensor" where
  "div_scalar t c = pointwise (\<lambda>v. fdiv v c) t"

text \<open>\<^verbatim>\<open>t.not_equal(c)\<close> on an integer tensor.\<close>

definition not_equal :: "int tensor \<Rightarrow> int \<Rightarrow> bool tensor" where
  "not_equal t c = pointwise (\<lambda>v. v \<noteq> c) t"

text \<open>\<^verbatim>\<open>torch.arange(n)\<close>, and \<^verbatim>\<open>torch.stack\<close> of a list of tensors along a new
  first axis: the list is not empty and its tensors have one shape.\<close>

definition arange :: "nat \<Rightarrow> int tensor" where
  "arange n = tab [n] (\<lambda>idx. int (hd idx))"

definition stack :: "'a tensor list \<Rightarrow> error + 'a tensor" where
  "stack ts =
     (case ts of
        [] \<Rightarrow> Inl RuntimeError
      | t # _ \<Rightarrow>
          if list_all (\<lambda>u. shape u = shape t) ts
          then Inr (tab (length ts # shape t) (\<lambda>idx. elt (ts ! hd idx) (tl idx)))
          else Inl RuntimeError)"

subsection \<open>Contractions and softmax\<close>

text \<open>
  The size of one subscript of an \<^verbatim>\<open>einsum\<close> that two operands share: the two sizes
  are equal or one of them is 1.
\<close>

definition bdim :: "nat \<Rightarrow> nat \<Rightarrow> error + nat" where
  "bdim m n = (if m = n \<or> n = 1 then Inr m else if m = 1 then Inr n else Inl RuntimeError)"

text \<open>\<^verbatim>\<open>torch.einsum('bchq,bkhc->bkhq', x, y)\<close>: the sum is over \<open>c\<close>.\<close>

definition einsum_bchq_bkhc_bkhq :: "fl tensor \<Rightarrow> fl tensor \<Rightarrow> error + fl tensor" where
  "einsum_bchq_bkhc_bkhq x y =
     (case (shape x, shape y) of
        ([xb, xc, xh, xq], [yb, yk, yh, yc]) \<Rightarrow>
          bindE (bdim xb yb) (\<lambda>b. bindE (bdim xc yc) (\<lambda>c. bindE (bdim xh yh) (\<lambda>h.
            Inr (tab [b, yk, h, xq] (\<lambda>idx.
              let ib = idx ! 0; ik = idx ! 1; ih = idx ! 2; iq = idx ! 3 in
              fsum_upto c (\<lambda>ic. fmul (elt x [pick xb ib, pick xc ic, pick xh ih, iq])
                                       (elt y [pick yb ib, ik, pick yh ih, pick yc ic])))))))
      | _ \<Rightarrow> Inl RuntimeError)"

text \<open>\<^verbatim>\<open>torch.einsum('bkhq,bchk->bchq', x, y)\<close>: the sum is over \<open>k\<close>.\<close>

definition einsum_bkhq_bchk_bchq :: "fl tensor \<Rightarrow> fl tensor \<Rightarrow> error + fl tensor" where
  "einsum_bkhq_bchk_bchq x y =
     (case (shape x, shape y) of
        ([xb, xk, xh, xq], [yb, yc, yh, yk]) \<Rightarrow>
          bindE (bdim xb yb) (\<lambda>b. bindE (bdim xk yk) (\<lambda>k. bindE (bdim xh yh) (\<lambda>h.
            Inr (tab [b, yc, h, xq] (\<lambda>idx.
              let ib = idx ! 0; ic = idx ! 1; ih = idx ! 2; iq = idx ! 3 in
              fsum_upto k (\<lambda>ik. fmul (elt x [pick xb ib, pick xk ik, pick xh ih, iq])
                                       (elt y [pick yb ib, ic, pick yh ih, pick yk ik])))))))
      | _ \<Rightarrow> Inl RuntimeError)"

text \<open>
  \<^verbatim>\<open>torch.softmax(t, d)\<close>: along dimension \<open>d\<close>, the exponential of each element
  less the largest one, over the sum of these exponentials. (torch takes the largest
  element off first, so that no exponential overflows.)
\<close>

definition softmax :: "fl tensor \<Rightarrow> nat \<Rightarrow> error + fl tensor" where
  "softmax t d =
     (if d < length (shape t)
      then Inr (tab (shape t) (\<lambda>idx.
             let largest = fmax_upto (shape t ! d) (\<lambda>j. elt t (idx[d := j])) in
             fdiv (fexp (fsub (elt t idx) largest))
                  (fsum_upto (shape t ! d) (\<lambda>j. fexp (fsub (elt t (idx[d := j])) largest)))))
      else Inl IndexError)"

section \<open>The modules of torch.nn that the encoder is built from\<close>

subsection \<open>GELU\<close>

text \<open>
  \<^verbatim>\<open>nn.GELU()\<close> is \<open>x * 0.5 * (1 + erf (x / sqrt 2))\<close>, the input times the
  Gaussian distribution function; \<open>erf\<close> is given by its power series.
\<close>

definition erf :: "real \<Rightarrow> real" where
  "erf x = 2 / sqrt pi * (\<Sum>n. (- 1) ^ n * x ^ (2 * n + 1) / (fact n * real (2 * n + 1)))"

fun ferf :: "fl \<Rightarrow> fl" where
  "ferf (Fin a) = rnd (erf a)"
| "ferf PInf = Fin 1"
| "ferf NInf = Fin (- 1)"
| "ferf NaN = NaN"

definition gelu_fl :: "fl \<Rightarrow> fl" where
  "gelu_fl x = fmul (fmul x (Fin (1 / 2))) (fadd (Fin 1) (ferf (fdiv x (fsqrt (Fin 2)))))"

definition GELU_forward :: "fl tensor \<Rightarrow> fl tensor" where
  "GELU_forward t = pointwise gelu_fl t"

subsection \<open>LayerNorm\<close>

text \<open>
  \<^verbatim>\<open>nn.LayerNorm(n)\<close> over the last dimension, of size \<open>n\<close>: with the mean and the
  (biased) variance of the \<open>n\<close> values, \<open>(x - mean) / sqrt (var + eps) * weight + bias\<close>.
\<close>

record LayerNorm =
  weight_ln :: "fl tensor"
  bias_ln :: "fl tensor"
  eps :: real

definition mean :: "fl list \<Rightarrow> fl" where
  "mean xs = fdiv (fsum xs) (rnd (real (length xs)))"

definition variance :: "fl list \<Rightarrow> fl" where
  "variance xs = mean (map (\<lambda>v. fmul (fsub v (mean xs)) (fsub v (mean xs))) xs)"

definition last_axis :: "'a tensor \<Rightarrow> nat list \<Rightarrow> 'a list" where
  "last_axis t idx = map (\<lambda>j. elt t (butlast idx @ [j])) [0..<last (shape t)]"

definition LayerNorm_forward :: "LayerNorm \<Rightarrow> fl tensor \<Rightarrow> error + fl tensor" where
  "LayerNorm_forward self x =
     (if shape x \<noteq> [] \<and> [last (shape x)] = shape (weight_ln self)
      then Inr (tab (shape x) (\<lambda>idx.
             let row = last_axis x idx in
             fadd (fmul (fdiv (fsub (elt x idx) (mean row))
                              (fsqrt (fadd (variance row) (rnd (eps self)))))
                        (elt (weight_ln self) [last idx]))
                  (elt (bias_ln self) [last idx])))
      else Inl RuntimeError)"

subsection \<open>Linear and the 1x1 convolution, both without bias\<close>

record Linear =
  weight_fc :: "fl tensor"

definition Linear_forward :: "Linear \<Rightarrow> fl tensor \<Rightarrow> error + fl tensor" where
  "Linear_forward self x =
     (case shape (weight_fc self) of
        [out_features, in_features] \<Rightarrow>
          if shape x \<noteq> [] \<and> last (shape x) = in_features
          then Inr (tab (butlast (shape x) @ [out_features]) (\<lambda>idx.
                 fsum_upto in_features (\<lambda>i. fmul (elt x (butlast idx @ [i]))
                                                  (elt (weight_fc self) [last idx, i]))))
          else Inl RuntimeError
      | _ \<Rightarrow> Inl RuntimeError)"

text \<open>
  \<^verbatim>\<open>nn.Conv2d(c_in, c_out, 1, bias=False)\<close> on a batch \<open>[n, c_in, h, w]\<close>: the same
  linear map of the channels at every place. The image is at least as large as the kernel.
\<close>

record Conv2d =
  weight_conv :: "fl tensor"

definition Conv2d_forward :: "Conv2d \<Rightarrow> fl tensor \<Rightarrow> error + fl tensor" where
  "Conv2d_forward self x =
     (case (shape (weight_conv self), shape x) of
        ([c_out, c_in, kh, kw], [n, c, h, w]) \<Rightarrow>
          if c = c_in \<and> kh = 1 \<and> kw = 1 \<and> 1 \<le> h \<and> 1 \<le> w
          then Inr (tab [n, c_out, h, w] (\<lambda>idx.
                 fsum_upto c_in (\<lambda>i. fmul (elt (weight_conv self) [idx ! 1, i, 0, 0])
                                           (elt x [idx ! 0, i, idx ! 2, idx ! 3]))))
          else Inl RuntimeError
      | _ \<Rightarrow> Inl RuntimeError)"

subsection \<open>Embedding\<close>

record Embedding =
  weight_emb :: "fl tensor"

definition Embedding_forward :: "Embedding \<Rightarrow> int tensor \<Rightarrow> error + fl tensor" where
  "Embedding_forward self x =
     (case shape (weight_emb self) of
        [num_embeddings, embedding_dim] \<Rightarrow>
          if list_all (\<lambda>v. 0 \<le> v \<and> v < int num_embeddings) (data x)
          then Inr (tab (shape x @ [embedding_dim]) (\<lambda>idx.
                 elt (weight_emb self) [nat (elt x (butlast idx)), last idx]))
          else Inl IndexError
      | _ \<Rightarrow> Inl RuntimeError)"

section \<open>The encoder\<close>

subsection \<open>GLUTorch\<close>

record GLUTorch =
  ln0 :: LayerNorm
  ln1 :: LayerNorm
  fc0 :: Linear
  fc1 :: Linear
  fc2 :: Linear

definition GLUTorch_forward :: "GLUTorch \<Rightarrow> fl tensor \<Rightarrow> error + fl tensor" where
  "GLUTorch_forward self z =
     bindE (LayerNorm_forward (ln0 self) z) (\<lambda>z.
     bindE (Linear_forward (fc0 self) z) (\<lambda>w.
     let w = GELU_forward w in
     bindE (Linear_forward (fc1 self) z) (\<lambda>v.
     bindE (mul w v) (\<lambda>wv.
     bindE (LayerNorm_forward (ln1 self) wv) (\<lambda>z.
     Linear_forward (fc2 self) z)))))"

subsection \<open>AttentionTorch\<close>

record AttentionTorch =
  head_count :: int
  embed_count :: int
  head_dim :: int
  k_proj :: Conv2d
  v_proj :: Conv2d
  q_proj :: Conv2d
  out_proj :: Conv2d

text \<open>
  \<^verbatim>\<open>head_dim ** 0.5\<close> of a Python integer. (A negative base would give a complex
  number; the reshapes before it have failed by then.)
\<close>

definition pow_half :: "int \<Rightarrow> fl" where
  "pow_half n = fsqrt (Fin (real_of_int n))"

text \<open>
  The locals of \<^verbatim>\<open>AttentionTorch.forward\<close> that the properties of attention are
  about: \<open>attention_weights\<close> after the first \<^verbatim>\<open>einsum\<close> (\<open>scores\<close>), after the bias
  is added (\<open>biased\<close>) and after the softmax (\<open>probs\<close>), \<open>hidden_state\<close> after the second
  \<^verbatim>\<open>einsum\<close> (\<open>mixed\<close>), and the value returned (\<open>returned\<close>).
\<close>

record attention_locals =
  scores :: "fl tensor"
  biased :: "fl tensor"
  probs :: "fl tensor"
  mixed :: "fl tensor"
  returned :: "fl tensor"

definition AttentionTorch_body ::
  "AttentionTorch \<Rightarrow> fl tensor \<Rightarrow> fl tensor \<Rightarrow> fl tensor \<Rightarrow> bool tensor
     \<Rightarrow> error + attention_locals"
where
  "AttentionTorch_body self keys values queries attention_mask =
     bindE (dim_size keys 0) (\<lambda>batch_count.
     bindE (transpose_dims 1 3 keys) (\<lambda>keys.
     bindE (reshape (map int (take 2 (shape keys)) @ [head_count self, - 1]) keys) (\<lambda>keys.
     let shp = [int batch_count, head_count self, head_dim self, - 1] in
     bindE (reshape shp values) (\<lambda>values.
     bindE (transpose_dims 1 2 values) (\<lambda>values.
     bindE (reshape shp queries) (\<lambda>queries.
     bindE (transpose_dims 1 2 queries) (\<lambda>queries.
     bindE (where_t attention_mask (zeros [1, 1]) (mul_scalar (ones [1, 1]) NInf))
       (\<lambda>attention_bias.
     bindE (einsum_bchq_bkhc_bkhq (div_scalar queries (pow_half (head_dim self))) keys)
       (\<lambda>attention_weights0.
     bindE (index_none2 attention_bias) (\<lambda>bias.
     bindE (iadd attention_weights0 bias) (\<lambda>attention_weights1.
     bindE (softmax attention_weights1 1) (\<lambda>attention_weights.
     bindE (einsum_bkhq_bchk_bchq attention_weights values) (\<lambda>hidden_state0.
     bindE (transpose_dims 1 2 hidden_state0) (\<lambda>hidden_state.
     bindE (reshape [int batch_count, embed_count self, 1, - 1] hidden_state) (\<lambda>hidden_state.
     bindE (Conv2d_forward (out_proj self) hidden_state) (\<lambda>hidden_state.
     Inr \<lparr>scores = attention_weights0, biased = attention_weights1,
          probs = attention_weights, mixed = hidden_state0,
          returned = hidden_state\<rparr>))))))))))))))))"

definition AttentionTorch_forward ::
  "AttentionTorch \<Rightarrow> fl tensor \<Rightarrow> fl tensor \<Rightarrow> fl tensor \<Rightarrow> bool tensor \<Rightarrow> error + fl tensor"
where
  "AttentionTorch_forward self keys values queries attention_mask =
     bindE (AttentionTorch_body self keys values queries attention_mask)
       (\<lambda>locals. Inr (returned locals))"

subsection \<open>EncoderSelfAttentionTorch\<close>

definition EncoderSelfAttentionTorch_forward ::
  "AttentionTorch \<Rightarrow> fl tensor \<Rightarrow> bool tensor \<Rightarrow> error + fl tensor"
where
  "EncoderSelfAttentionTorch_forward self encoder_state attention_mask =
     bindE (transpose_dims 1 2 encoder_state) (\<lambda>encoder_state.
     bindE (unsqueeze 2 encoder_state) (\<lambda>encoder_state.
     bindE (Conv2d_forward (k_proj self) encoder_state) (\<lambda>keys.
     bindE (Conv2d_forward (v_proj self) encoder_state) (\<lambda>values.
     bindE (Conv2d_forward (q_proj self) encoder_state) (\<lambda>queries.
     AttentionTorch_forward self keys values queries attention_mask)))))"

subsection \<open>EncoderLayerTorch\<close>

record EncoderLayerTorch =
  pre_self_attn_layer_norm :: LayerNorm
  self_attn :: AttentionTorch
  self_attn_layer_norm :: LayerNorm
  glu :: GLUTorch

definition EncoderLayerTorch_forward ::
  "EncoderLayerTorch \<Rightarrow> fl tensor \<Rightarrow> bool tensor \<Rightarrow> error + fl tensor"
where
  "EncoderLayerTorch_forward self encoder_state attention_mask =
     (let residual = encoder_state in
      bindE (LayerNorm_forward (pre_self_attn_layer_norm self) encoder_state) (\<lambda>encoder_state.
      bindE (EncoderSelfAttentionTorch_forward (self_attn self) encoder_state attention_mask)
        (\<lambda>encoder_state.
      bindE (transpose_dims 1 3 encoder_state) (\<lambda>encoder_state.
      bindE (squeeze 2 encoder_state) (\<lambda>encoder_state.
      bindE (LayerNorm_forward (self_attn_layer_norm self) encoder_state) (\<lambda>encoder_state.
      bindE (add residual encoder_state) (\<lambda>encoder_state.
      let residual = encoder_state in
      bindE (GLUTorch_forward (glu self) encoder_state) (\<lambda>encoder_state.
      add residual encoder_state))))))))"

subsection \<open>DalleBartEncoderTorch\<close>

record DalleBartEncoderTorch =
  embed_tokens :: Embedding
  embed_positions :: Embedding
  layers :: "EncoderLayerTorch list"
  layernorm_embedding :: LayerNorm
  final_ln :: LayerNorm

text \<open>The loop over the layers: the state goes through them in order, with one mask.\<close>

fun run_layers ::
  "EncoderLayerTorch list \<Rightarrow> fl tensor \<Rightarrow> bool tensor \<Rightarrow> error + fl tensor"
where
  "run_layers [] encoder_state attention_mask = Inr encoder_state"
| "run_layers (layer # rest) encoder_state attention_mask =
     bindE (EncoderLayerTorch_forward layer encoder_state attention_mask)
       (\<lambda>encoder_state. run_layers rest encoder_state attention_mask)"

definition DalleBartEncoderTorch_forward ::
  "DalleBartEncoderTorch \<Rightarrow> int tensor \<Rightarrow> error + fl tensor"
where
  "DalleBartEncoderTorch_forward self text_tokens =
     (let attention_mask = not_equal text_tokens 1 in
      case shape text_tokens of
        [batch_count, token_count] \<Rightarrow>
          bindE (stack (replicate batch_count (arange token_count))) (\<lambda>pose_tokens.
          bindE (Embedding_forward (embed_tokens self) text_tokens) (\<lambda>tok.
          bindE (Embedding_forward (embed_positions self) pose_tokens) (\<lambda>pos.
          bindE (add tok pos) (\<lambda>encoder_state.
          bindE (LayerNorm_forward (layernorm_embedding self) encoder_state) (\<lambda>encoder_state.
          bindE (run_layers (layers self) encoder_state attention_mask) (\<lambda>encoder_state.
          LayerNorm_forward (final_ln self) encoder_state))))))
      | _ \<Rightarrow> Inl ValueError)"

section \<open>Attention, element by element\<close>

text \<open>
  What \<^verbatim>\<open>AttentionTorch.forward\<close> computes for batch row \<open>b\<close>, head \<open>h\<close>, query
  position \<open>q\<close> and key position \<open>k\<close>, read off the projections it is given (of shape
  \<open>[batch, embed, 1, positions]\<close>; channel \<open>h * D + c\<close> is channel \<open>c\<close> of head \<open>h\<close>):
  the score, the score with the mask's bias, the softmax weight, the mix of the values, and
  the output projection of the mix.
\<close>

definition att_score :: "nat \<Rightarrow> fl tensor \<Rightarrow> fl tensor \<Rightarrow> nat \<Rightarrow> nat \<Rightarrow> nat \<Rightarrow> nat \<Rightarrow> fl" where
  "att_score D queries keys b k h q =
     fsum_upto D (\<lambda>c. fmul (fdiv (elt queries [b, h * D + c, 0, q]) (pow_half (int D)))
                          (elt keys [b, h * D + c, 0, k]))"

definition att_biased ::
  "nat \<Rightarrow> fl tensor \<Rightarrow> fl tensor \<Rightarrow> bool tensor \<Rightarrow> nat \<Rightarrow> nat \<Rightarrow> nat \<Rightarrow> nat \<Rightarrow> fl" where
  "att_biased D queries keys amask b k h q =
     fadd (att_score D queries keys b k h q) (if elt amask [b, k] then Fin 0 else NInf)"

definition att_largest ::
  "nat \<Rightarrow> nat \<Rightarrow> fl tensor \<Rightarrow> fl tensor \<Rightarrow> bool tensor \<Rightarrow> nat \<Rightarrow> nat \<Rightarrow> nat \<Rightarrow> fl" where
  "att_largest D K queries keys amask b h q =
     fmax_upto K (\<lambda>j. att_biased D queries keys amask b j h q)"

definition att_prob ::
  "nat \<Rightarrow> nat \<Rightarrow> fl tensor \<Rightarrow> fl tensor \<Rightarrow> bool tensor \<Rightarrow> nat \<Rightarrow> nat \<Rightarrow> nat \<Rightarrow> nat \<Rightarrow> fl" where
  "att_prob D K queries keys amask b k h q =
     fdiv (fexp (fsub (att_biased D queries keys amask b k h q)
                      (att_largest D K queries keys amask b h q)))
          (fsum_upto K (\<lambda>j. fexp (fsub (att_biased D queries keys amask b j h q)
                                         (att_largest D K queries keys amask b h q))))"

definition att_mixed ::
  "nat \<Rightarrow> nat \<Rightarrow> fl tensor \<Rightarrow> fl tensor \<Rightarrow> fl tensor \<Rightarrow> bool tensor
     \<Rightarrow> nat \<Rightarrow> nat \<Rightarrow> nat \<Rightarrow> nat \<Rightarrow> fl" where
  "att_mixed D K queries keys values amask b c h q =
     fsum_upto K (\<lambda>k. fmul (att_prob D K queries keys amask b k h q)
                          (elt values [b, h * D + c, 0, k]))"

definition att_out ::
  "fl tensor \<Rightarrow> nat \<Rightarrow> nat \<Rightarrow> nat \<Rightarrow> fl tensor \<Rightarrow> fl tensor \<Rightarrow> fl tensor \<Rightarrow> bool tensor
     \<Rightarrow> nat \<Rightarrow> nat \<Rightarrow> nat \<Rightarrow> fl" where
  "att_out w E D K queries keys values amask b oc q =
     fsum_upto E (\<lambda>e. fmul (elt w [oc, e, 0, 0])
                          (att_mixed D K queries keys values amask b (e mod D) (e div D) q))"

text \<open>A tensor all of whose elements are finite, and one all of whose elements are float32
  numbers.\<close>

definition finite_tensor :: "fl tensor \<Rightarrow> bool" where
  "finite_tensor t = list_all is_fin (data t)"

definition float32_tensor :: "fl tensor \<Rightarrow> bool" where
  "float32_tensor t = list_all float32 (data t)"

text \<open>One element of a local of the attention, when the attention has not failed.\<close>

definition local_elt ::
  "(attention_locals \<Rightarrow> fl tensor) \<Rightarrow> error + attention_locals \<Rightarrow> nat list \<Rightarrow> fl option" where
  "local_elt field r idx = (case r of Inl e \<Rightarrow> None | Inr L \<Rightarrow> Some (elt (field L) idx))"

section \<open>The encoder, one position at a time\<close>

text \<open>
  A tensor whose last dimension has size \<open>n\<close> is a family of vectors of length \<open>n\<close>, one
  for each index into the dimensions before the last: \<open>rows p n F\<close> is the tensor of shape
  \<open>p @ [n]\<close> whose vector at \<open>pidx\<close> is \<open>F pidx\<close>, and \<open>row_at x pidx\<close> reads the
  vector back.
\<close>

definition rows :: "nat list \<Rightarrow> nat \<Rightarrow> (nat list \<Rightarrow> 'a list) \<Rightarrow> 'a tensor" where
  "rows p n F = tab (p @ [n]) (\<lambda>idx. F (butlast idx) ! last idx)"

definition row_at :: "'a tensor \<Rightarrow> nat list \<Rightarrow> 'a list" where
  "row_at x pidx = map (\<lambda>j. elt x (pidx @ [j])) [0..<last (shape x)]"

text \<open>
  The blocks of the gated feed-forward unit on one vector: layer normalization, the
  bias-free linear map, and their composition with the GELU gate.
\<close>

definition vec_layer_norm :: "LayerNorm \<Rightarrow> fl list \<Rightarrow> fl list" where
  "vec_layer_norm nrm xs =
     map (\<lambda>c. fadd (fmul (fdiv (fsub (xs ! c) (mean xs))
                              (fsqrt (fadd (variance xs) (rnd (eps nrm)))))
                        (elt (weight_ln nrm) [c]))
                  (elt (bias_ln nrm) [c]))
         [0..<length xs]"

definition vec_linear :: "Linear \<Rightarrow> fl list \<Rightarrow> fl list" where
  "vec_linear l xs =
     map (\<lambda>oc. fsum_upto (length xs) (\<lambda>i. fmul (xs ! i) (elt (weight_fc l) [oc, i])))
         [0..<hd (shape (weight_fc l))]"

definition vec_glu :: "GLUTorch \<Rightarrow> fl list \<Rightarrow> fl list" where
  "vec_glu g xs =
     (let z = vec_layer_norm (ln0 g) xs;
          a = map gelu_fl (vec_linear (fc0 g) z);
          b = vec_linear (fc1 g) z
      in vec_linear (fc2 g) (vec_layer_norm (ln1 g) (map2 fmul a b)))"

text \<open>The weights of a \<^verbatim>\<open>GLUTorch(E, M)\<close> have the shapes its constructor gives them.\<close>

definition GLU_shapes :: "GLUTorch \<Rightarrow> nat \<Rightarrow> nat \<Rightarrow> bool" where
  "GLU_shapes g E M =
     (shape (weight_ln (ln0 g)) = [E] \<and> shape (weight_ln (ln1 g)) = [M]
      \<and> shape (weight_fc (fc0 g)) = [M, E] \<and> shape (weight_fc (fc1 g)) = [M, E]
      \<and> shape (weight_fc (fc2 g)) = [E, M])"

section \<open>A smallest example\<close>

text \<open>One batch row, one position, one head of dimension one; every projection doubles.\<close>

definition ex_conv :: Conv2d where
  "ex_conv = \<lparr>weight_conv = tab [1, 1, 1, 1] (\<lambda>_. Fin 2)\<rparr>"

definition ex_attention :: AttentionTorch where
  "ex_attention = \<lparr>head_count = 1, embed_count = 1, head_dim = 1,
     k_proj = ex_conv, v_proj = ex_conv, q_proj = ex_conv, out_proj = ex_conv\<rparr>"

definition ex_state :: "fl tensor" where
  "ex_state = tab [1, 1, 1, 1] (\<lambda>_. Fin 1)"

definition ex_mask :: "bool tensor" where
  "ex_mask = tab [1, 1] (\<lambda>_. True)"

text \<open>The same with two key positions, the second of them padding.\<close>

definition ex_pair :: "fl tensor" where
  "ex_pair = tab [1, 1, 1, 2] (\<lambda>_. Fin 1)"

definition ex_pad_mask :: "bool tensor" where
  "ex_pad_mask = tab [1, 2] (\<lambda>idx. idx ! 1 = 0)"

definition ex_norm :: LayerNorm where
  "ex_norm = \<lparr>weight_ln = tab [1] (\<lambda>_. Fin 1), bias_ln = tab [1] (\<lambda>_. Fin 0),
     eps = 1 / 100000\<rparr>"

definition ex_linear :: Linear where
  "ex_linear = \<lparr>weight_fc = tab [1, 1] (\<lambda>_. Fin 2)\<rparr>"

definition ex_glu :: GLUTorch where
  "ex_glu = \<lparr>ln0 = ex_norm, ln1 = ex_norm, fc0 = ex_linear, fc1 = ex_linear, fc2 = ex_linear\<rparr>"

definition ex_hidden :: "fl tensor" where
  "ex_hidden = tab [1, 1, 1] (\<lambda>_. Fin 1)"

text \<open>
  Two heads of dimension four over three key positions, the last of them padding, and two
  query positions; then a single position.
\<close>

definition ex_proj :: Conv2d where
  "ex_proj = \<lparr>weight_conv = tab [8, 8, 1, 1] (\<lambda>_. Fin 1)\<rparr>"

definition ex_heads :: AttentionTorch where
  "ex_heads = \<lparr>head_count = 2, embed_count = 8, head_dim = 4,
     k_proj = ex_proj, v_proj = ex_proj, q_proj = ex_proj, out_proj = ex_proj\<rparr>"

definition ex_keys :: "fl tensor" where
  "ex_keys = tab [1, 8, 1, 3] (\<lambda>_. Fin 1)"

definition ex_queries :: "fl tensor" where
  "ex_queries = tab [1, 8, 1, 2] (\<lambda>_. Fin 2)"

definition ex_key_mask :: "bool tensor" where
  "ex_key_mask = tab [1, 3] (\<lambda>idx. idx ! 1 < 2)"

definition ex_one_key :: "fl tensor" where
  "ex_one_key = tab [1, 8, 1, 1] (\<lambda>_. Fin 1)"

definition ex_one_query :: "fl tensor" where
  "ex_one_query = tab [1, 8, 1, 1] (\<lambda>_. Fin 2)"

text \<open>
  Finite queries and keys whose product overflows: \<open>2 ^ 64\<close> times \<open>2 ^ 64\<close> is out of the
  range of float32.
\<close>

definition ex_big :: "fl tensor" where
  "ex_big = tab [1, 1, 1, 1] (\<lambda>_. Fin (2 ^ 64))"

definition ex_big_pair :: "fl tensor" where
  "ex_big_pair = tab [1, 1, 1, 2] (\<lambda>_. Fin (2 ^ 64))"

section \<open>Index arithmetic\<close>

lemma valid_index_length: "valid_index s idx \<Longrightarrow> length idx = length s"
  by (induction s idx rule: valid_index.induct) auto

lemma ravel_lt: "valid_index s idx \<Longrightarrow> ravel s idx < prod_list s"
proof (induction s idx rule: valid_index.induct)
  case (2 d ds i "is")
  then have r: "ravel ds is < prod_list ds" and i: "i < d" by auto
  have "i * prod_list ds + ravel ds is < i * prod_list ds + prod_list ds"
    using r by simp
  also have "\<dots> = Suc i * prod_list ds" by simp
  also have "\<dots> \<le> d * prod_list ds"
    using i by (intro mult_le_mono1) simp
  finally show ?case by simp
qed auto

lemma unravel_ravel: "valid_index s idx \<Longrightarrow> unravel s (ravel s idx) = idx"
proof (induction s idx rule: valid_index.induct)
  case (2 d ds i "is")
  then have r: "ravel ds is < prod_list ds" by (auto intro: ravel_lt)
  then show ?case using 2 by simp
qed auto

lemma valid_unravel: "n < prod_list s \<Longrightarrow> valid_index s (unravel s n)"
proof (induction s arbitrary: n)
  case (Cons d ds)
  then have pos: "0 < prod_list ds" by (cases "prod_list ds = 0") auto
  have "n div prod_list ds < d"
    using Cons.prems pos by (simp add: less_mult_imp_div_less mult.commute)
  then show ?case using Cons.IH pos by simp
qed simp

lemma ravel_unravel: "n < prod_list s \<Longrightarrow> ravel s (unravel s n) = n"
proof (induction s arbitrary: n)
  case (Cons d ds)
  then have pos: "0 < prod_list ds" by (cases "prod_list ds = 0") auto
  then have "ravel ds (unravel ds (n mod prod_list ds)) = n mod prod_list ds"
    by (intro Cons.IH) simp
  then show ?case by simp
qed simp

lemma shape_tab [simp]: "shape (tab s f) = s"
  by (simp add: tab_def)

lemma wft_tab [simp]: "wft (tab s f)"
  by (simp add: tab_def wft_def)

lemma elt_tab: "valid_index s idx \<Longrightarrow> elt (tab s f) idx = f idx"
  by (simp add: elt_def tab_def numel_def ravel_lt unravel_ravel)

lemma tab_cong:
  assumes "\<And>idx. valid_index s idx \<Longrightarrow> f idx = g idx"
  shows "tab s f = tab s g"
  using assms by (simp add: tab_def numel_def valid_unravel)

lemma tab_elt: "wft t \<Longrightarrow> tab (shape t) (elt t) = t"
proof -
  assume w: "wft t"
  have "map (\<lambda>n. data t ! ravel (shape t) (unravel (shape t) n)) [0..<length (data t)] = data t"
    using w by (intro nth_equalityI) (simp_all add: wft_def numel_def ravel_unravel)
  then show ?thesis
    using w by (cases t) (simp add: tab_def elt_def wft_def)
qed

section \<open>The operations on tabulated tensors\<close>

lemma bindE_Inr [simp]: "bindE (Inr x) f = f x"
  by (simp add: bindE_def)

lemma bindE_Inl [simp]: "bindE (Inl e) f = Inl e"
  by (simp add: bindE_def)

lemma valid_index_Nil [simp]: "valid_index [] idx = (idx = [])"
  by (cases idx) auto

lemma valid_index_Cons:
  "valid_index (d # ds) idx = (\<exists>i is. idx = i # is \<and> i < d \<and> valid_index ds is)"
  by (cases idx) auto

lemma head_index_lt: "h < H \<Longrightarrow> c < D \<Longrightarrow> h * D + c < H * (D::nat)"
proof -
  assume h: "h < H" and c: "c < D"
  have "h * D + c < h * D + D" using c by simp
  also have "\<dots> = Suc h * D" by simp
  also have "\<dots> \<le> H * D" using h by (intro mult_le_mono1) simp
  finally show ?thesis .
qed

lemma reshaped_tab:
  assumes "prod_list s' = prod_list s"
  shows "\<lparr>shape = s', data = data (tab s f)\<rparr> = tab s' (\<lambda>idx. f (unravel s (ravel s' idx)))"
  using assms by (simp add: tab_def numel_def ravel_unravel)

lemma infer_size4:
  assumes "0 < a * b * c" and "(a * b * c) dvd n"
  shows "infer_size [int a, int b, int c, - 1] n = Inr [a, b, c, n div (a * b * c)]"
proof -
  have "int a * (int b * int c) = int (a * b * c)" by simp
  then have p: "nat (int a * (int b * int c)) = a * b * c" by (metis nat_int)
  show ?thesis
    using assms by (simp add: infer_size_def p Let_def dvd_eq_mod_eq_0 del: of_nat_mult)
qed


lemma transpose_13:
  assumes "shape t = [a, b, c, d]"
  shows "transpose_dims 1 3 t = Inr (tab [a, d, c, b] (\<lambda>idx. elt t [idx ! 0, idx ! 3, idx ! 2, idx ! 1]))"
  using assms by (auto simp: transpose_dims_def swap_def valid_index_Cons intro!: tab_cong)

lemma transpose_12:
  assumes "shape t = [a, b, c, d]"
  shows "transpose_dims 1 2 t = Inr (tab [a, c, b, d] (\<lambda>idx. elt t [idx ! 0, idx ! 2, idx ! 1, idx ! 3]))"
  using assms by (auto simp: transpose_dims_def swap_def valid_index_Cons intro!: tab_cong)

lemma transpose_12_3d:
  assumes "shape t = [a, b, c]"
  shows "transpose_dims 1 2 t = Inr (tab [a, c, b] (\<lambda>idx. elt t [idx ! 0, idx ! 2, idx ! 1]))"
  using assms by (auto simp: transpose_dims_def swap_def valid_index_Cons intro!: tab_cong)

lemma fsum_upto_cong [cong]:
  assumes "n = m" and "\<And>i. i < m \<Longrightarrow> f i = g i"
  shows "fsum_upto n f = fsum_upto m g"
proof -
  have "map f [0..<m] = map g [0..<m]"
    by (rule map_cong) (simp_all add: assms(2))
  then show ?thesis
    unfolding fsum_upto_def assms(1) by (rule arg_cong)
qed

lemma pick_lt [simp]: "i < d \<Longrightarrow> pick d i = i"
  by (auto simp: pick_def)

lemma ravel_heads:
  "ravel [B, H, D, K] [b, h, c, k] = ravel [B, H * D, 1, K] [b, h * D + c, 0, k]"
  by (simp add: algebra_simps)

lemma ravel_split:
  "ravel [B, K, H, D] [b, k, h, c] = ravel [B, K, 1, H * D] [b, k, 0, h * D + c]"
  by (simp add: algebra_simps)

declare ravel.simps [simp del] unravel.simps [simp del]

lemma unravel_split:
  assumes "b < B" "k < K" "h < H" "c < D"
  shows "unravel [B, K, Suc 0, H * D] (ravel [B, K, H, D] [b, k, h, c]) = [b, k, 0, h * D + c]"
proof -
  have "valid_index [B, K, 1, H * D] [b, k, 0, h * D + c]"
    using assms by (simp add: head_index_lt)
  then have "unravel [B, K, 1, H * D] (ravel [B, K, H, D] [b, k, h, c]) = [b, k, 0, h * D + c]"
    by (simp only: ravel_split [of B K H D b k h c] unravel_ravel)
  then show ?thesis by simp
qed

lemma unravel_heads:
  assumes "b < B" "h < H" "c < D" "k < K"
  shows "unravel [B, H * D, Suc 0, K] (ravel [B, H, D, K] [b, h, c, k]) = [b, h * D + c, 0, k]"
proof -
  have "valid_index [B, H * D, 1, K] [b, h * D + c, 0, k]"
    using assms by (simp add: head_index_lt)
  then have "unravel [B, H * D, 1, K] (ravel [B, H, D, K] [b, h, c, k]) = [b, h * D + c, 0, k]"
    by (simp only: ravel_heads [of B H D K b h c k] unravel_ravel)
  then show ?thesis by simp
qed

lemma unravel_merge:
  assumes "b < B" "e < H * D" "k < K"
  shows "unravel [B, H, D, K] (ravel [B, H * D, Suc 0, K] [b, e, 0, k])
         = [b, e div D, e mod D, k]"
proof -
  have D: "0 < D" using assms by (cases D) auto
  have "ravel [B, H, D, K] [b, e div D, e mod D, k]
        = ravel [B, H * D, 1, K] [b, e div D * D + e mod D, 0, k]"
    by (rule ravel_heads)
  also have "e div D * D + e mod D = e"
    by (rule div_mult_mod_eq)
  finally have "ravel [B, H * D, 1, K] [b, e, 0, k] = ravel [B, H, D, K] [b, e div D, e mod D, k]"
    by (rule sym)
  moreover have "valid_index [B, H, D, K] [b, e div D, e mod D, k]"
    using assms D by (simp add: less_mult_imp_div_less mult.commute)
  ultimately have "unravel [B, H, D, K] (ravel [B, H * D, 1, K] [b, e, 0, k])
         = [b, e div D, e mod D, k]"
    by (simp only: unravel_ravel)
  then show ?thesis by simp
qed

lemma infer4:
  assumes "0 < a * b * c" and "n = a * b * c * d"
  shows "infer_size [int a, int b, int c, - 1] n = Inr [a, b, c, d]"
  using assms by (subst infer_size4) auto

lemma reshape_tab:
  assumes "infer_size target (prod_list s) = Inr s'" and "prod_list s' = prod_list s"
  shows "reshape target (tab s f) = Inr (tab s' (\<lambda>idx. f (unravel s (ravel s' idx))))"
  using assms by (simp add: reshape_def numel_def reshaped_tab)

lemma valid_index_ConsE:
  assumes "valid_index (d # ds) idx"
  obtains i "is" where "idx = i # is" "i < d" "valid_index ds is"
  using assms by (cases idx) auto

lemma valid_index1:
  "valid_index [a] idx \<longleftrightarrow> (\<exists>i. idx = [i] \<and> i < a)"
  by (auto elim!: valid_index_ConsE)

lemma valid_index2:
  "valid_index [a, b] idx \<longleftrightarrow> (\<exists>i j. idx = [i, j] \<and> i < a \<and> j < b)"
  by (auto elim!: valid_index_ConsE)

lemma valid_index3:
  "valid_index [a, b, c] idx \<longleftrightarrow> (\<exists>i j k. idx = [i, j, k] \<and> i < a \<and> j < b \<and> k < c)"
  by (auto elim!: valid_index_ConsE)

lemma valid_index4:
  "valid_index [a, b, c, d] idx \<longleftrightarrow>
     (\<exists>i j k l. idx = [i, j, k, l] \<and> i < a \<and> j < b \<and> k < c \<and> l < d)"
  by (auto elim!: valid_index_ConsE)

lemma tab_elt_cong:
  assumes "\<And>idx. valid_index s idx \<Longrightarrow> valid_index s' (h idx)"
  shows "tab s (\<lambda>idx. elt (tab s' g) (h idx)) = tab s (\<lambda>idx. g (h idx))"
  by (rule tab_cong) (simp add: assms elt_tab)

lemma transpose_12_tab:
  "transpose_dims 1 2 (tab [a, b, c, d] f)
   = Inr (tab [a, c, b, d] (\<lambda>idx. f [idx ! 0, idx ! 2, idx ! 1, idx ! 3]))"
proof -
  have "tab [a, c, b, d] (\<lambda>idx. elt (tab [a, b, c, d] f) [idx ! 0, idx ! 2, idx ! 1, idx ! 3])
        = tab [a, c, b, d] (\<lambda>idx. f [idx ! 0, idx ! 2, idx ! 1, idx ! 3])"
    by (rule tab_elt_cong) (auto simp: valid_index4)
  then show ?thesis
    by (simp only: transpose_12 [OF shape_tab])
qed

lemma pick_one [simp]: "pick (Suc 0) i = 0"
  by (simp add: pick_def)

lemma broadcast_mask: "broadcast_shapes [B, K] [1, 1] = Inr [B, K]"
  by (simp add: broadcast_shapes_def)

lemma broadcast_bias: "broadcast_shapes [B, K, H, Q] [B, K, 1, 1] = Inr [B, K, H, Q]"
  by (simp add: broadcast_shapes_def)

lemma where_stage:
  assumes sh: "shape amask = [B, K]"
  shows "where_t amask (zeros [1, 1]) (mul_scalar (ones [1, 1]) NInf)
         = Inr (tab [B, K] (\<lambda>idx. if elt amask idx then Fin 0 else NInf))"
proof -
  have z: "elt (zeros [Suc 0, Suc 0]) [0, 0] = Fin 0"
    by (simp add: zeros_def elt_tab)
  have n: "elt (mul_scalar (ones [Suc 0, Suc 0]) NInf) [0, 0] = NInf"
    by (simp add: mul_scalar_def pointwise_def ones_def elt_tab inf_scaled_def)
  have s: "shape (zeros [1, 1]) = [1, 1]" "shape (mul_scalar (ones [1, 1]) NInf) = [1, 1]"
    by (simp_all add: zeros_def mul_scalar_def pointwise_def ones_def)
  show ?thesis
    unfolding where_t_def sh s
    apply (simp only: broadcast_mask bindE_Inr sum.inject)
    apply (rule tab_cong)
    apply (clarsimp simp: valid_index2 bidx_def z n)
    done
qed

lemma index_none2_tab:
  "index_none2 (tab [B, K] f) = Inr (tab [B, K, 1, 1] (\<lambda>idx. f [idx ! 0, idx ! 1]))"
proof -
  have u: "unravel [B, K] (ravel [B, K, Suc 0, Suc 0] [b, k, 0, 0]) = [b, k]"
    if "b < B" "k < K" for b k
  proof -
    have "ravel [B, K, Suc 0, Suc 0] [b, k, 0, 0] = ravel [B, K] [b, k]"
      by (simp add: ravel.simps)
    then show ?thesis using that by (simp add: unravel_ravel)
  qed
  have "\<lparr>shape = [B, K, 1, 1], data = data (tab [B, K] f)\<rparr>
        = tab [B, K, 1, 1] (\<lambda>idx. f [idx ! 0, idx ! 1])"
    apply (subst reshaped_tab)
     apply simp
    apply (rule tab_cong)
    apply (clarsimp simp: valid_index4 u)
    done
  then show ?thesis
    by (simp add: index_none2_def)
qed

lemma bdim_same [simp]: "bdim n n = Inr n"
  by (simp add: bdim_def)

lemma div_scalar_tab: "div_scalar (tab s f) c = tab s (\<lambda>idx. fdiv (f idx) c)"
  unfolding div_scalar_def pointwise_def shape_tab
  by (rule tab_cong) (simp add: elt_tab)

lemma einsum1_tab:
  "einsum_bchq_bkhc_bkhq (tab [B, D, H, Q] f) (tab [B, K, H, D] g)
   = Inr (tab [B, K, H, Q] (\<lambda>idx.
       fsum_upto D (\<lambda>c. fmul (f [idx ! 0, c, idx ! 2, idx ! 3])
                               (g [idx ! 0, idx ! 1, idx ! 2, c]))))"
  unfolding einsum_bchq_bkhc_bkhq_def shape_tab
  apply (simp only: list.case prod.case bdim_same bindE_Inr sum.inject Let_def)
  apply (rule tab_cong)
  apply (clarsimp simp: valid_index4 elt_tab)
  done

lemma einsum2_tab:
  "einsum_bkhq_bchk_bchq (tab [B, K, H, Q] f) (tab [B, D, H, K] g)
   = Inr (tab [B, D, H, Q] (\<lambda>idx.
       fsum_upto K (\<lambda>k. fmul (f [idx ! 0, k, idx ! 2, idx ! 3])
                               (g [idx ! 0, idx ! 1, idx ! 2, k]))))"
  unfolding einsum_bkhq_bchk_bchq_def shape_tab
  apply (simp only: list.case prod.case bdim_same bindE_Inr sum.inject Let_def)
  apply (rule tab_cong)
  apply (clarsimp simp: valid_index4 elt_tab)
  done

lemma iadd_tab:
  "iadd (tab [B, K, H, Q] f) (tab [B, K, 1, 1] g)
   = Inr (tab [B, K, H, Q] (\<lambda>idx. fadd (f idx) (g [idx ! 0, idx ! 1, 0, 0])))"
  unfolding iadd_def binary_def shape_tab
  apply (simp only: broadcast_bias bindE_Inr simp_thms if_True sum.inject)
  apply (rule tab_cong)
  apply (clarsimp simp: valid_index4 elt_tab bidx_def)
  done

lemma fmax_upto_cong [cong]:
  assumes "n = m" and "\<And>i. i < m \<Longrightarrow> f i = g i"
  shows "fmax_upto n f = fmax_upto m g"
proof -
  have "map f [0..<m] = map g [0..<m]"
    by (rule map_cong) (simp_all add: assms(2))
  then show ?thesis
    unfolding fmax_upto_def assms(1) by (rule arg_cong)
qed

lemma softmax_tab:
  "softmax (tab [B, K, H, Q] f) 1
   = Inr (tab [B, K, H, Q] (\<lambda>idx.
       fdiv (fexp (fsub (f idx) (fmax_upto K (\<lambda>j. f [idx ! 0, j, idx ! 2, idx ! 3]))))
            (fsum_upto K (\<lambda>j. fexp (fsub (f [idx ! 0, j, idx ! 2, idx ! 3])
                                           (fmax_upto K (\<lambda>j. f [idx ! 0, j, idx ! 2, idx ! 3])))))))"
  unfolding softmax_def shape_tab
  apply (simp add: Let_def)
  apply (rule tab_cong)
  apply (clarsimp simp: valid_index4 elt_tab)
  done

lemma infer_merge:
  assumes "0 < B" "0 < H" "0 < D"
  shows "infer_size [int B, int (H * D), 1, - 1] (prod_list [B, H, D, Q]) = Inr [B, H * D, 1, Q]"
  using infer4 [of B "H * D" 1 "prod_list [B, H, D, Q]" Q] assms by simp

lemma conv_tab:
  assumes "shape (weight_conv self) = [Co, Ci, 1, 1]" and "0 < N"
  shows "Conv2d_forward self (tab [B, Ci, 1, N] f)
         = Inr (tab [B, Co, 1, N] (\<lambda>idx.
             fsum_upto Ci (\<lambda>i. fmul (elt (weight_conv self) [idx ! 1, i, 0, 0])
                                     (f [idx ! 0, i, 0, idx ! 3]))))"
  unfolding Conv2d_forward_def shape_tab assms(1)
  using assms(2)
  apply simp
  apply (rule tab_cong)
  apply (clarsimp simp: valid_index4 elt_tab)
  done

section \<open>What the attention computes\<close>

lemma keys_reshape:
  assumes pos: "0 < B" "0 < K" "0 < H" "0 < D"
  shows "reshape (map int (take 2 (shape (tab [B, K, 1, H * D] f))) @ [int H, - 1])
           (tab [B, K, 1, H * D] f)
         = Inr (tab [B, K, H, D] (\<lambda>idx. f [idx ! 0, idx ! 1, 0, idx ! 2 * D + idx ! 3]))"
proof -
  have inf: "infer_size [int B, int K, int H, - 1] (prod_list [B, K, 1, H * D]) = Inr [B, K, H, D]"
    using pos by (intro infer4) auto
  have "reshape [int B, int K, int H, - 1] (tab [B, K, 1, H * D] f)
        = Inr (tab [B, K, H, D] (\<lambda>idx. f [idx ! 0, idx ! 1, 0, idx ! 2 * D + idx ! 3]))"
    apply (subst reshape_tab [OF inf])
     apply simp
    apply (simp only: sum.inject)
    apply (rule tab_cong)
    apply (clarsimp simp: valid_index4 unravel_split)
    done
  then show ?thesis by simp
qed

lemma heads_reshape:
  assumes sh: "shape x = [B, H * D, 1, N]" and w: "wft x" and pos: "0 < B" "0 < H" "0 < D"
  shows "reshape [int B, int H, int D, - 1] x
         = Inr (tab [B, H, D, N] (\<lambda>idx. elt x [idx ! 0, idx ! 1 * D + idx ! 2, 0, idx ! 3]))"
proof -
  have x: "x = tab [B, H * D, 1, N] (elt x)"
    using tab_elt [OF w] sh by simp
  have inf: "infer_size [int B, int H, int D, - 1] (prod_list [B, H * D, 1, N]) = Inr [B, H, D, N]"
    using pos by (intro infer4) auto
  have "reshape [int B, int H, int D, - 1] (tab [B, H * D, 1, N] (elt x))
        = Inr (tab [B, H, D, N] (\<lambda>idx. elt x [idx ! 0, idx ! 1 * D + idx ! 2, 0, idx ! 3]))"
    apply (subst reshape_tab [OF inf])
     apply simp
    apply (simp only: sum.inject)
    apply (rule tab_cong)
    apply (clarsimp simp: valid_index4 unravel_heads)
    done
  then show ?thesis using x by simp
qed

lemma merge_reshape:
  assumes pos: "0 < B" "0 < H" "0 < D"
  shows "reshape [int B, int (H * D), 1, - 1] (tab [B, H, D, Q] f)
         = Inr (tab [B, H * D, 1, Q] (\<lambda>idx. f [idx ! 0, idx ! 1 div D, idx ! 1 mod D, idx ! 3]))"
  apply (subst reshape_tab [OF infer_merge [OF pos]])
   apply simp
  apply (simp only: sum.inject)
  apply (rule tab_cong)
  apply (clarsimp simp: valid_index4 unravel_merge)
  done

lemma AttentionTorch_body_eq:
  assumes hc: "head_count self = int H" "embed_count self = int (H * D)" "head_dim self = int D"
      and pos: "0 < B" "0 < H" "0 < D" "0 < K" "0 < Q"
      and sk: "shape keys = [B, H * D, 1, K]"
      and sv: "shape values = [B, H * D, 1, K]" "wft values"
      and sq: "shape queries = [B, H * D, 1, Q]" "wft queries"
      and sm: "shape amask = [B, K]"
      and so: "shape (weight_conv (out_proj self)) = [H * D, H * D, 1, 1]"
  shows "AttentionTorch_body self keys values queries amask = Inr
     \<lparr>scores = tab [B, K, H, Q] (\<lambda>idx.
        att_score D queries keys (idx ! 0) (idx ! 1) (idx ! 2) (idx ! 3)),
      biased = tab [B, K, H, Q] (\<lambda>idx.
        att_biased D queries keys amask (idx ! 0) (idx ! 1) (idx ! 2) (idx ! 3)),
      probs = tab [B, K, H, Q] (\<lambda>idx.
        att_prob D K queries keys amask (idx ! 0) (idx ! 1) (idx ! 2) (idx ! 3)),
      mixed = tab [B, D, H, Q] (\<lambda>idx.
        att_mixed D K queries keys values amask (idx ! 0) (idx ! 1) (idx ! 2) (idx ! 3)),
      returned = tab [B, H * D, 1, Q] (\<lambda>idx.
        att_out (weight_conv (out_proj self)) (H * D) D K queries keys values amask
          (idx ! 0) (idx ! 1) (idx ! 3))\<rparr>"
proof -
  define kT where "kT = tab [B, K, H, D] (\<lambda>idx. elt keys [idx ! 0, idx ! 2 * D + idx ! 3, 0, idx ! 1])"
  define vT where "vT = tab [B, D, H, K] (\<lambda>idx. elt values [idx ! 0, idx ! 2 * D + idx ! 1, 0, idx ! 3])"
  define qT where "qT = tab [B, D, H, Q] (\<lambda>idx. elt queries [idx ! 0, idx ! 2 * D + idx ! 1, 0, idx ! 3])"
  define bT where "bT = tab [B, K] (\<lambda>idx. if elt amask idx then Fin 0 else NInf)"
  define sT where "sT = tab [B, K, H, Q] (\<lambda>idx.
        att_score D queries keys (idx ! 0) (idx ! 1) (idx ! 2) (idx ! 3))"
  define aT where "aT = tab [B, K, H, Q] (\<lambda>idx.
        att_biased D queries keys amask (idx ! 0) (idx ! 1) (idx ! 2) (idx ! 3))"
  define pT where "pT = tab [B, K, H, Q] (\<lambda>idx.
        att_prob D K queries keys amask (idx ! 0) (idx ! 1) (idx ! 2) (idx ! 3))"
  define mT where "mT = tab [B, D, H, Q] (\<lambda>idx.
        att_mixed D K queries keys values amask (idx ! 0) (idx ! 1) (idx ! 2) (idx ! 3))"
  define rT where "rT = tab [B, H * D, 1, Q] (\<lambda>idx.
        att_mixed D K queries keys values amask (idx ! 0) (idx ! 1 mod D) (idx ! 1 div D) (idx ! 3))"
  define oT where "oT = tab [B, H * D, 1, Q] (\<lambda>idx.
        att_out (weight_conv (out_proj self)) (H * D) D K queries keys values amask
          (idx ! 0) (idx ! 1) (idx ! 3))"
  define kT0 where "kT0 = tab [B, K, 1, H * D] (\<lambda>idx. elt keys [idx ! 0, idx ! 3, idx ! 2, idx ! 1])"
  define vT0 where "vT0 = tab [B, H, D, K] (\<lambda>idx. elt values [idx ! 0, idx ! 1 * D + idx ! 2, 0, idx ! 3])"
  define qT0 where "qT0 = tab [B, H, D, Q] (\<lambda>idx. elt queries [idx ! 0, idx ! 1 * D + idx ! 2, 0, idx ! 3])"
  define bT4 where "bT4 = tab [B, K, 1, 1] (\<lambda>idx. if elt amask [idx ! 0, idx ! 1] then Fin 0 else NInf)"
  define mT0 where "mT0 = tab [B, H, D, Q] (\<lambda>idx.
        att_mixed D K queries keys values amask (idx ! 0) (idx ! 2) (idx ! 1) (idx ! 3))"
  have d0: "dim_size keys 0 = Inr B"
    by (simp add: dim_size_def sk)
  have k0: "transpose_dims 1 3 keys = Inr kT0"
    unfolding kT0_def by (rule transpose_13 [OF sk])
  have k1: "reshape (map int (take 2 (shape kT0)) @ [head_count self, - 1]) kT0 = Inr kT"
    unfolding hc kT_def kT0_def
    apply (subst keys_reshape [OF pos(1) pos(4) pos(2) pos(3)])
    apply (simp only: sum.inject)
    apply (rule tab_cong)
    apply (clarsimp simp: valid_index4)
    done
  have v0: "reshape [int B, head_count self, head_dim self, - 1] values = Inr vT0"
    unfolding hc vT0_def by (rule heads_reshape [OF sv pos(1,2,3)])
  have v1: "transpose_dims 1 2 vT0 = Inr vT"
    unfolding vT0_def transpose_12_tab vT_def
    apply (simp only: sum.inject)
    apply (rule tab_cong)
    apply (clarsimp simp: valid_index4)
    done
  have q0: "reshape [int B, head_count self, head_dim self, - 1] queries = Inr qT0"
    unfolding hc qT0_def by (rule heads_reshape [OF sq pos(1,2,3)])
  have q1: "transpose_dims 1 2 qT0 = Inr qT"
    unfolding qT0_def transpose_12_tab qT_def
    apply (simp only: sum.inject)
    apply (rule tab_cong)
    apply (clarsimp simp: valid_index4)
    done
  have w1: "where_t amask (zeros [1, 1]) (mul_scalar (ones [1, 1]) NInf) = Inr bT"
    unfolding bT_def by (rule where_stage [OF sm])
  have e1: "einsum_bchq_bkhc_bkhq (div_scalar qT (pow_half (head_dim self))) kT = Inr sT"
    unfolding qT_def kT_def sT_def div_scalar_tab einsum1_tab hc
    apply (simp only: sum.inject)
    apply (rule tab_cong)
    apply (clarsimp simp: valid_index4 att_score_def)
    done
  have i0: "index_none2 bT = Inr bT4"
    unfolding bT_def bT4_def by (rule index_none2_tab)
  have i1: "iadd sT bT4 = Inr aT"
    unfolding bT4_def sT_def aT_def iadd_tab
    apply (simp only: sum.inject)
    apply (rule tab_cong)
    apply (clarsimp simp: valid_index4 att_biased_def)
    done
  have s1: "softmax aT 1 = Inr pT"
    unfolding aT_def pT_def softmax_tab
    apply (simp only: sum.inject)
    apply (rule tab_cong)
    apply (clarsimp simp: valid_index4 att_prob_def att_largest_def)
    done
  have e2: "einsum_bkhq_bchk_bchq pT vT = Inr mT"
    unfolding pT_def vT_def mT_def einsum2_tab
    apply (simp only: sum.inject)
    apply (rule tab_cong)
    apply (clarsimp simp: valid_index4 att_mixed_def)
    done
  have r0: "transpose_dims 1 2 mT = Inr mT0"
    unfolding mT_def mT0_def transpose_12_tab
    apply (simp only: sum.inject)
    apply (rule tab_cong)
    apply (clarsimp simp: valid_index4)
    done
  have r1: "reshape [int B, embed_count self, 1, - 1] mT0 = Inr rT"
    unfolding mT0_def rT_def hc merge_reshape [OF pos(1,2,3)]
    apply (simp only: sum.inject)
    apply (rule tab_cong)
    apply (clarsimp simp: valid_index4)
    done
  have c1: "Conv2d_forward (out_proj self) rT = Inr oT"
    unfolding rT_def oT_def conv_tab [OF so pos(5)]
    apply (simp only: sum.inject)
    apply (rule tab_cong)
    apply (clarsimp simp: valid_index4 att_out_def)
    done
  show ?thesis
    unfolding sT_def [symmetric] aT_def [symmetric] pT_def [symmetric]
      mT_def [symmetric] oT_def [symmetric] AttentionTorch_body_def
    by (simp only: d0 k0 k1 v0 v1 q0 q1 w1 e1 i0 i1 s1 e2 r0 r1 c1 bindE_Inr Let_def)
qed

section \<open>Rounding\<close>

lemma rne_of_int [simp]: "rne (of_int n) = n"
  by (simp add: rne_def)

lemma rne_floor: "rne y = \<lfloor>y\<rfloor> \<or> rne y = \<lfloor>y\<rfloor> + 1"
  by (simp add: rne_def Let_def)

lemma rne_mono: "x \<le> y \<Longrightarrow> rne x \<le> rne y"
proof -
  assume le: "x \<le> y"
  then have f: "\<lfloor>x\<rfloor> \<le> \<lfloor>y\<rfloor>" by (rule floor_mono)
  show ?thesis
  proof (cases "\<lfloor>x\<rfloor> = \<lfloor>y\<rfloor>")
    case True
    then show ?thesis
      using le by (auto simp: rne_def Let_def)
  next
    case False
    then have "\<lfloor>x\<rfloor> + 1 \<le> \<lfloor>y\<rfloor>" using f by simp
    moreover have "rne x \<le> \<lfloor>x\<rfloor> + 1" "\<lfloor>y\<rfloor> \<le> rne y"
      using rne_floor [of x] rne_floor [of y] by auto
    ultimately show ?thesis by simp
  qed
qed


lemma rne_minus: "rne (- y) = - rne y"
proof (cases "y = of_int \<lfloor>y\<rfloor>")
  case True
  then obtain n where "y = of_int n" ..
  then have "- y = of_int (- n)" by simp
  then show ?thesis
    unfolding \<open>y = of_int n\<close> by (simp only: rne_of_int)
next
  case False
  then have f: "\<lfloor>- y\<rfloor> = - \<lfloor>y\<rfloor> - 1"
    by (simp add: floor_minus ceiling_altdef)
  show ?thesis
    unfolding rne_def Let_def f
    by (auto simp: algebra_simps)
qed

lemma rne_zero [simp]: "rne 0 = 0"
  using rne_of_int [of 0] by simp

lemma ulp_exp_minus [simp]: "ulp_exp (- x) = ulp_exp x"
  by (simp add: ulp_exp_def)

lemma ulp_exp_ge: "- 149 \<le> ulp_exp x"
  by (simp add: ulp_exp_def)

lemma log_floor:
  assumes "x \<noteq> 0"
  shows "2 powi \<lfloor>log 2 \<bar>x\<bar>\<rfloor> \<le> \<bar>x\<bar>" and "\<bar>x\<bar> < 2 powi (\<lfloor>log 2 \<bar>x\<bar>\<rfloor> + 1)"
proof -
  have "(2::real) powr real_of_int \<lfloor>log 2 \<bar>x\<bar>\<rfloor> \<le> \<bar>x\<bar>
      \<and> \<bar>x\<bar> < 2 powr (real_of_int \<lfloor>log 2 \<bar>x\<bar>\<rfloor> + 1)"
    using floor_log_eq_powr_iff [of "\<bar>x\<bar>" 2 "\<lfloor>log 2 \<bar>x\<bar>\<rfloor>"] assms by simp
  moreover have "real_of_int \<lfloor>log 2 \<bar>x\<bar>\<rfloor> + 1 = real_of_int (\<lfloor>log 2 \<bar>x\<bar>\<rfloor> + 1)"
    by simp
  ultimately show "2 powi \<lfloor>log 2 \<bar>x\<bar>\<rfloor> \<le> \<bar>x\<bar>" and "\<bar>x\<bar> < 2 powi (\<lfloor>log 2 \<bar>x\<bar>\<rfloor> + 1)"
    by (simp_all only: powr_real_of_int' [of 2, simplified])
qed

lemma ulp_exp_upper:
  assumes "x \<noteq> 0"
  shows "\<bar>x\<bar> < 2 powi (ulp_exp x + 24)"
proof -
  have "\<lfloor>log 2 \<bar>x\<bar>\<rfloor> + 1 \<le> ulp_exp x + 24"
    by (simp add: ulp_exp_def)
  then have "(2::real) powi (\<lfloor>log 2 \<bar>x\<bar>\<rfloor> + 1) \<le> 2 powi (ulp_exp x + 24)"
    by (intro power_int_increasing) auto
  then show ?thesis
    using log_floor(2) [OF assms] by linarith
qed

lemma ulp_exp_lower:
  assumes "x \<noteq> 0" "- 149 < ulp_exp x"
  shows "2 powi (ulp_exp x + 23) \<le> \<bar>x\<bar>"
proof -
  have "ulp_exp x + 23 = \<lfloor>log 2 \<bar>x\<bar>\<rfloor>"
    using assms(2) by (simp add: ulp_exp_def max_def split: if_splits)
  then show ?thesis
    using log_floor(1) [OF assms(1)] by simp
qed

lemma ulp_exp_mono:
  assumes "0 < x" "x \<le> y"
  shows "ulp_exp x \<le> ulp_exp y"
proof -
  have "log 2 x \<le> log 2 y"
    using assms by simp
  then have "\<lfloor>log 2 x\<rfloor> \<le> \<lfloor>log 2 y\<rfloor>"
    by (rule floor_mono)
  then show ?thesis
    using assms by (simp add: ulp_exp_def)
qed

lemma nearest_minus [simp]: "nearest (- x) = - nearest x"
  by (simp add: nearest_def rne_minus)

lemma nearest_zero [simp]: "nearest 0 = 0"
  by (simp add: nearest_def)

lemma nearest_nonneg: "0 \<le> x \<Longrightarrow> 0 \<le> nearest x"
proof -
  assume "0 \<le> x"
  then have "rne 0 \<le> rne (x / 2 powi ulp_exp x)"
    by (intro rne_mono) simp
  then show ?thesis
    by (simp add: nearest_def)
qed

lemma nearest_upper:
  assumes "0 < x"
  shows "nearest x \<le> 2 powi (ulp_exp x + 24)"
proof -
  have "x < 2 powi (ulp_exp x + 24)"
    using ulp_exp_upper [of x] assms by simp
  then have "x / 2 powi ulp_exp x \<le> of_int (2 ^ 24)"
    by (simp add: power_int_add field_simps)
  then have "rne (x / 2 powi ulp_exp x) \<le> 2 ^ 24"
    using rne_mono rne_of_int by metis
  then have "real_of_int (rne (x / 2 powi ulp_exp x)) \<le> 2 ^ 24"
    by simp
  then show ?thesis
    by (simp add: nearest_def power_int_add field_simps)
qed

lemma nearest_lower:
  assumes "0 < x" "- 149 < ulp_exp x"
  shows "2 powi (ulp_exp x + 23) \<le> nearest x"
proof -
  have "2 powi (ulp_exp x + 23) \<le> x"
    using ulp_exp_lower [of x] assms by simp
  then have "of_int (2 ^ 23) \<le> x / 2 powi ulp_exp x"
    by (simp add: power_int_add field_simps)
  then have "2 ^ 23 \<le> rne (x / 2 powi ulp_exp x)"
    using rne_mono rne_of_int by metis
  then have "2 ^ 23 \<le> real_of_int (rne (x / 2 powi ulp_exp x))"
    by simp
  then show ?thesis
    by (simp add: nearest_def power_int_add field_simps)
qed

lemma nearest_mono_pos:
  assumes "0 < x" "x \<le> y"
  shows "nearest x \<le> nearest y"
proof (cases "ulp_exp x = ulp_exp y")
  case True
  have "x / 2 powi ulp_exp y \<le> y / 2 powi ulp_exp y"
    using assms by (simp add: divide_right_mono)
  then have "rne (x / 2 powi ulp_exp y) \<le> rne (y / 2 powi ulp_exp y)"
    by (rule rne_mono)
  then show ?thesis
    by (simp add: nearest_def True)
next
  case False
  then have lt: "ulp_exp x < ulp_exp y"
    using ulp_exp_mono [OF assms] by simp
  then have "- 149 < ulp_exp y"
    using ulp_exp_ge [of x] by simp
  then have "2 powi (ulp_exp y + 23) \<le> nearest y"
    using assms by (intro nearest_lower) auto
  moreover have "nearest x \<le> 2 powi (ulp_exp x + 24)"
    using assms by (intro nearest_upper)
  moreover have "(2::real) powi (ulp_exp x + 24) \<le> 2 powi (ulp_exp y + 23)"
    using lt by (intro power_int_increasing) auto
  ultimately show ?thesis by linarith
qed

lemma nearest_mono:
  assumes "x \<le> y"
  shows "nearest x \<le> nearest y"
proof -
  consider "0 < x" | "x \<le> 0" "0 \<le> y" | "y < 0" by linarith
  then show ?thesis
  proof cases
    case 1
    then show ?thesis using assms by (rule nearest_mono_pos)
  next
    case 2
    have "nearest x \<le> 0"
      using nearest_nonneg [of "- x"] 2(1) by simp
    then show ?thesis
      using nearest_nonneg [OF 2(2)] by simp
  next
    case 3
    then have "nearest (- y) \<le> nearest (- x)"
      using assms by (intro nearest_mono_pos) auto
    then show ?thesis by simp
  qed
qed

lemma nearest_rep:
  assumes m: "\<bar>m\<bar> < 2 ^ 24" and k: "- 149 \<le> k"
  shows "nearest (of_int m * 2 powi k) = of_int m * 2 powi k"
proof (cases "m = 0")
  case True
  then show ?thesis by simp
next
  case False
  let ?x = "real_of_int m * 2 powi k"
  have x0: "?x \<noteq> 0" using False by simp
  have "ulp_exp ?x \<le> k"
  proof (rule ccontr)
    assume "\<not> ulp_exp ?x \<le> k"
    then have gt: "k < ulp_exp ?x" by simp
    then have "- 149 < ulp_exp ?x" using k by simp
    then have "2 powi (ulp_exp ?x + 23) \<le> \<bar>?x\<bar>"
      by (intro ulp_exp_lower x0)
    moreover have "(2::real) powi (k + 24) \<le> 2 powi (ulp_exp ?x + 23)"
      using gt by (intro power_int_increasing) auto
    moreover have "\<bar>?x\<bar> < 2 powi (k + 24)"
    proof -
      have "\<bar>real_of_int m\<bar> < 2 ^ 24"
        using m by (metis of_int_abs of_int_less_numeral_power_cancel_iff)
      then have "\<bar>real_of_int m\<bar> * 2 powi k < 2 ^ 24 * 2 powi k"
        by (intro mult_strict_right_mono) auto
      then show ?thesis
        by (simp add: abs_mult power_int_add mult.commute)
    qed
    ultimately show False by linarith
  qed
  then obtain d where d: "k = ulp_exp ?x + int d"
    by (metis zle_iff_zadd)
  have "?x / 2 powi ulp_exp ?x = of_int (m * 2 ^ d)"
    by (subst (1) d) (simp add: power_int_add)
  then have "rne (?x / 2 powi ulp_exp ?x) = m * 2 ^ d"
    by (simp only: rne_of_int)
  then have "nearest ?x = of_int (m * 2 ^ d) * 2 powi ulp_exp ?x"
    by (simp only: nearest_def)
  also have "\<dots> = of_int m * 2 powi (ulp_exp ?x + int d)"
    by (simp add: power_int_add)
  finally show ?thesis
    using d by simp
qed

lemma rne_bound:
  assumes "\<bar>y\<bar> \<le> of_int n"
  shows "\<bar>rne y\<bar> \<le> n"
proof -
  have "rne y \<le> rne (of_int n)" "rne (of_int (- n)) \<le> rne y"
    using assms by (intro rne_mono; simp)+
  then show ?thesis unfolding rne_of_int by linarith
qed

lemma nearest_idem [simp]: "nearest (nearest x) = nearest x"
proof (cases "x = 0")
  case True
  then show ?thesis by simp
next
  case False
  let ?e = "ulp_exp x"
  let ?M = "rne (x / 2 powi ?e)"
  have "\<bar>x\<bar> < 2 powi (?e + 24)"
    using False by (rule ulp_exp_upper)
  then have "\<bar>x / 2 powi ?e\<bar> \<le> of_int (2 ^ 24)"
    by (simp add: power_int_add field_simps abs_mult)
  then have M: "\<bar>?M\<bar> \<le> 2 ^ 24"
    by (rule rne_bound)
  show ?thesis
  proof (cases "\<bar>?M\<bar> = 2 ^ 24")
    case True
    then have "?M = 2 ^ 23 * 2 \<or> ?M = - (2 ^ 23) * 2" by auto
    then have "nearest x = 8388608 * 2 powi (?e + 1)
             \<or> nearest x = - (8388608 * 2 powi (?e + 1))"
      unfolding nearest_def by (auto simp: power_int_add)
    moreover have "nearest (8388608 * 2 powi (?e + 1)) = 8388608 * 2 powi (?e + 1)"
      using nearest_rep [of 8388608 "?e + 1"] ulp_exp_ge [of x] by simp
    ultimately show ?thesis by auto
  next
    case False
    then have "\<bar>?M\<bar> < 2 ^ 24" using M by simp
    then have "nearest (of_int ?M * 2 powi ?e) = of_int ?M * 2 powi ?e"
      using ulp_exp_ge [of x] by (intro nearest_rep) auto
    then show ?thesis by (simp add: nearest_def)
  qed
qed



lemma rnd_not_NaN [simp]: "rnd x \<noteq> NaN"
  by (simp add: rnd_def)

lemma rnd_Fin: "rnd x = Fin y \<longleftrightarrow> y = nearest x \<and> \<bar>nearest x\<bar> < 2 ^ 128"
  by (auto simp: rnd_def)

lemma rnd_PInf: "rnd x = PInf \<longleftrightarrow> 2 ^ 128 \<le> nearest x"
  using nearest_nonneg [of x] nearest_nonneg [of "- x"]
  by (auto simp: rnd_def abs_if)

lemma rnd_NInf: "rnd x = NInf \<longleftrightarrow> nearest x \<le> - (2 ^ 128)"
  using nearest_nonneg [of x] nearest_nonneg [of "- x"]
  by (auto simp: rnd_def abs_if)

lemma rnd_idem: "rnd x = Fin y \<Longrightarrow> rnd y = Fin y"
  by (simp add: rnd_Fin)


lemma rnd_rep:
  assumes "\<bar>m\<bar> < 2 ^ 24" "- 149 \<le> k" "\<bar>of_int m * 2 powi k\<bar> < (2::real) ^ 128"
  shows "rnd (of_int m * 2 powi k) = Fin (of_int m * 2 powi k)"
  using assms by (simp add: rnd_Fin nearest_rep)

lemma rnd_of_int:
  assumes "\<bar>n\<bar> < 2 ^ 24"
  shows "rnd (of_int n) = Fin (of_int n)"
proof -
  have "\<bar>real_of_int n\<bar> < 2 ^ 24"
    using assms by (metis of_int_abs of_int_less_numeral_power_cancel_iff)
  then have "\<bar>real_of_int n\<bar> < 2 ^ 128"
    by simp
  then show ?thesis
    using rnd_rep [of n 0] assms by simp
qed

lemma rnd_0 [simp]: "rnd 0 = Fin 0"
  using rnd_of_int [of 0] by simp

lemma rnd_1 [simp]: "rnd 1 = Fin 1"
  using rnd_of_int [of 1] by simp

lemma rnd_numeral [simp]: "numeral n < (2::int) ^ 24 \<Longrightarrow> rnd (numeral n) = Fin (numeral n)"
  using rnd_of_int [of "numeral n"] by simp

lemma rnd_neg_numeral [simp]:
  "numeral n < (2::int) ^ 24 \<Longrightarrow> rnd (- numeral n) = Fin (- numeral n)"
  using rnd_of_int [of "- numeral n"] by simp



lemma nearest_one [simp]: "nearest 1 = 1"
  using rnd_1 [unfolded rnd_Fin] by simp


section \<open>Arithmetic on tensor elements\<close>

lemma float32_rnd [simp]: "float32 (rnd x)"
  by (cases "rnd x") (auto simp: float32_def dest: rnd_idem)

lemma float32_simps [simp]: "float32 PInf" "float32 NInf" "float32 NaN" "float32 (Fin 0)" "float32 (Fin 1)"
  by (simp_all add: float32_def)

lemma float32_fadd [simp]: "float32 (fadd x y)"
  by (cases x; cases y) auto

lemma float32_fmul [simp]: "float32 (fmul x y)"
  by (cases x; cases y) (auto simp: inf_scaled_def)

lemma float32_fdiv [simp]: "float32 (fdiv x y)"
  by (cases x; cases y) auto

lemma float32_fexp [simp]: "float32 (fexp x)"
  by (cases x) auto

lemma fadd_zero_right: "float32 x \<Longrightarrow> fadd x (Fin 0) = x"
  by (cases x) (auto simp: float32_def)

lemma fadd_zero_left: "float32 x \<Longrightarrow> fadd (Fin 0) x = x"
  by (cases x) (auto simp: float32_def)

lemma fmul_one_left: "float32 x \<Longrightarrow> fmul (Fin 1) x = x"
  by (cases x) (auto simp: float32_def inf_scaled_def)

lemma fsum_snoc: "fsum (xs @ [y]) = (if xs = [] then y else fadd (fsum xs) y)"
  by (cases xs) simp_all

lemma fsum_upto_Suc: "fsum_upto (Suc n) f = (if n = 0 then f 0 else fadd (fsum_upto n f) (f n))"
  by (simp add: fsum_upto_def fsum_snoc)

lemma fsum_upto_0 [simp]: "fsum_upto 0 f = Fin 0"
  by (simp add: fsum_upto_def)

lemma fsum_upto_one [simp]: "fsum_upto (Suc 0) f = f 0"
  by (simp add: fsum_upto_Suc)

lemma fmax_upto_0 [simp]: "fmax_upto 0 f = NInf"
  by (simp add: fmax_upto_def)

lemma fmax_upto_Suc: "fmax_upto (Suc n) f = fmax (fmax_upto n f) (f n)"
  by (simp add: fmax_upto_def)

lemma float32_fsum_upto:
  assumes "0 < n" and "\<And>i. i < n \<Longrightarrow> float32 (f i)"
  shows "float32 (fsum_upto n f)"
proof (cases n)
  case 0
  then show ?thesis using assms(1) by simp
next
  case (Suc m)
  then show ?thesis
    using assms(2) [of 0] by (simp add: fsum_upto_Suc)
qed

lemma is_fin_conv: "is_fin x \<longleftrightarrow> (\<exists>r. x = Fin r)"
  by (cases x) auto







section \<open>The attention weights\<close>

lemma finite_elt:
  assumes "finite_tensor t" "wft t" "valid_index (shape t) idx"
  shows "is_fin (elt t idx)"
proof -
  have "ravel (shape t) idx < length (data t)"
    using assms(2,3) by (simp add: wft_def numel_def ravel_lt)
  then show ?thesis
    using assms(1) by (simp add: finite_tensor_def elt_def list_all_length)
qed

lemma finite_tab: "(\<And>idx. valid_index s idx \<Longrightarrow> is_fin (f idx)) \<Longrightarrow> finite_tensor (tab s f)"
  by (simp add: finite_tensor_def tab_def list_all_length numel_def valid_unravel)

lemma float32_elt:
  assumes "float32_tensor t" "wft t" "valid_index (shape t) idx"
  shows "float32 (elt t idx)"
proof -
  have "ravel (shape t) idx < length (data t)"
    using assms(2,3) by (simp add: wft_def numel_def ravel_lt)
  then show ?thesis
    using assms(1) by (simp add: float32_tensor_def elt_def list_all_length)
qed

lemma float32_tab:
  "(\<And>idx. valid_index s idx \<Longrightarrow> float32 (f idx)) \<Longrightarrow> float32_tensor (tab s f)"
  by (simp add: float32_tensor_def tab_def list_all_length numel_def valid_unravel)

lemma head_valid:
  assumes "shape t = [B, H * D, 1, N]" "b < B" "h < H" "c < D" "i < N"
  shows "valid_index (shape t) [b, h * D + c, 0, i]"
  using assms by (simp add: head_index_lt)

lemma float32_att_score: "0 < D \<Longrightarrow> float32 (att_score D queries keys b k h q)"
  unfolding att_score_def by (rule float32_fsum_upto) simp_all

lemma fadd_NInf: "fadd s NInf = (if is_fin s \<or> s = NInf then NInf else NaN)"
  by (cases s) auto

lemma att_biased_cases:
  assumes "0 < D"
  shows "att_biased D queries keys amask b k h q
         = (if elt amask [b, k] then att_score D queries keys b k h q
            else if is_fin (att_score D queries keys b k h q)
                  \<or> att_score D queries keys b k h q = NInf then NInf else NaN)"
  using float32_att_score [OF assms, of queries keys b k h q]
  by (simp add: att_biased_def fadd_zero_right fadd_NInf)

text \<open>
  Claim C1, as the code has it. In the attention forward pass the raw score for batch row
  \<open>b\<close>, head \<open>h\<close>, query position \<open>i\<close> and key position \<open>j\<close> is the float32 sum,
  over the channels \<open>c\<close> of the head, of \<open>(q_i[c] / sqrt head_dim) * k_j[c]\<close>: the query
  is divided by the square root before the product, and every operation is rounded. Before
  the softmax, negative infinity is added to every score whose key position is masked,
  whatever the head and the query position: the masked score is then negative infinity when
  the raw score is finite or negative infinity, and not-a-number when the raw score is
  positive infinity or not-a-number. The scores of the other key positions stay as they
  are. The softmax is taken over the key positions, for each batch row, head and query
  position.
\<close>

theorem attention_scores:
  assumes hc: "head_count self = int H" "embed_count self = int (H * D)" "head_dim self = int D"
      and pos: "0 < B" "0 < H" "0 < D" "0 < K" "0 < Q"
      and sk: "shape keys = [B, H * D, 1, K]"
      and sv: "shape values = [B, H * D, 1, K]" "wft values"
      and sq: "shape queries = [B, H * D, 1, Q]" "wft queries"
      and sm: "shape amask = [B, K]"
      and so: "shape (weight_conv (out_proj self)) = [H * D, H * D, 1, 1]"
  shows "\<exists>L. AttentionTorch_body self keys values queries amask = Inr L
     \<and> scores L = tab [B, K, H, Q] (\<lambda>idx. fsum_upto D (\<lambda>c.
           fmul (fdiv (elt queries [idx ! 0, idx ! 2 * D + c, 0, idx ! 3]) (fsqrt (Fin (real D))))
                (elt keys [idx ! 0, idx ! 2 * D + c, 0, idx ! 1])))
     \<and> biased L = tab [B, K, H, Q] (\<lambda>idx.
           if elt amask [idx ! 0, idx ! 1] then elt (scores L) idx
           else if is_fin (elt (scores L) idx) \<or> elt (scores L) idx = NInf then NInf else NaN)
     \<and> probs L = tab [B, K, H, Q] (\<lambda>idx.
           let row = (\<lambda>j. elt (biased L) [idx ! 0, j, idx ! 2, idx ! 3]);
               largest = fmax_upto K row
           in fdiv (fexp (fsub (row (idx ! 1)) largest))
                   (fsum_upto K (\<lambda>j. fexp (fsub (row j) largest))))"
proof -
  define sT where "sT = tab [B, K, H, Q] (\<lambda>idx.
      att_score D queries keys (idx ! 0) (idx ! 1) (idx ! 2) (idx ! 3))"
  define aT where "aT = tab [B, K, H, Q] (\<lambda>idx.
      att_biased D queries keys amask (idx ! 0) (idx ! 1) (idx ! 2) (idx ! 3))"
  define pT where "pT = tab [B, K, H, Q] (\<lambda>idx.
      att_prob D K queries keys amask (idx ! 0) (idx ! 1) (idx ! 2) (idx ! 3))"
  define mT where "mT = tab [B, D, H, Q] (\<lambda>idx.
      att_mixed D K queries keys values amask (idx ! 0) (idx ! 1) (idx ! 2) (idx ! 3))"
  define oT where "oT = tab [B, H * D, 1, Q] (\<lambda>idx.
      att_out (weight_conv (out_proj self)) (H * D) D K queries keys values amask
        (idx ! 0) (idx ! 1) (idx ! 3))"
  have body: "AttentionTorch_body self keys values queries amask
      = Inr \<lparr>scores = sT, biased = aT, probs = pT, mixed = mT, returned = oT\<rparr>"
    unfolding sT_def aT_def pT_def mT_def oT_def
    by (rule AttentionTorch_body_eq [OF hc pos sk sv sq sm so])
  have 1: "sT = tab [B, K, H, Q] (\<lambda>idx. fsum_upto D (\<lambda>c.
           fmul (fdiv (elt queries [idx ! 0, idx ! 2 * D + c, 0, idx ! 3]) (fsqrt (Fin (real D))))
                (elt keys [idx ! 0, idx ! 2 * D + c, 0, idx ! 1])))"
    unfolding sT_def by (rule tab_cong) (simp add: att_score_def pow_half_def)
  have 2: "aT = tab [B, K, H, Q] (\<lambda>idx.
           if elt amask [idx ! 0, idx ! 1] then elt sT idx
           else if is_fin (elt sT idx) \<or> elt sT idx = NInf then NInf else NaN)"
    unfolding aT_def
  proof (rule tab_cong)
    fix idx assume v: "valid_index [B, K, H, Q] idx"
    then have "elt sT idx = att_score D queries keys (idx ! 0) (idx ! 1) (idx ! 2) (idx ! 3)"
      by (simp add: sT_def elt_tab)
    then show "att_biased D queries keys amask (idx ! 0) (idx ! 1) (idx ! 2) (idx ! 3)
        = (if elt amask [idx ! 0, idx ! 1] then elt sT idx
           else if is_fin (elt sT idx) \<or> elt sT idx = NInf then NInf else NaN)"
      using att_biased_cases [OF pos(3)] by simp
  qed
  have 3: "pT = tab [B, K, H, Q] (\<lambda>idx.
           let row = (\<lambda>j. elt aT [idx ! 0, j, idx ! 2, idx ! 3]);
               largest = fmax_upto K row
           in fdiv (fexp (fsub (row (idx ! 1)) largest))
                   (fsum_upto K (\<lambda>j. fexp (fsub (row j) largest))))"
    unfolding pT_def
  proof (rule tab_cong)
    fix idx assume v: "valid_index [B, K, H, Q] idx"
    then obtain b k h q where idx: "idx = [b, k, h, q]" "b < B" "k < K" "h < H" "q < Q"
      by (auto simp: valid_index4)
    have e: "elt aT [b, j, h, q] = att_biased D queries keys amask b j h q" if "j < K" for j
      using that idx by (simp add: aT_def elt_tab)
    show "att_prob D K queries keys amask (idx ! 0) (idx ! 1) (idx ! 2) (idx ! 3)
        = (let row = (\<lambda>j. elt aT [idx ! 0, j, idx ! 2, idx ! 3]);
               largest = fmax_upto K row
           in fdiv (fexp (fsub (row (idx ! 1)) largest))
                   (fsum_upto K (\<lambda>j. fexp (fsub (row j) largest))))"
      using idx by (simp add: Let_def e att_prob_def att_largest_def)
  qed
  define L where "L = \<lparr>scores = sT, biased = aT, probs = pT, mixed = mT, returned = oT\<rparr>"
  have sel: "scores L = sT" "biased L = aT" "probs L = pT"
    by (simp_all add: L_def)
  show ?thesis
  proof (intro exI [of _ L] conjI)
    show "AttentionTorch_body self keys values queries amask = Inr L"
      unfolding L_def by (rule body)
    show "scores L = tab [B, K, H, Q] (\<lambda>idx. fsum_upto D (\<lambda>c.
           fmul (fdiv (elt queries [idx ! 0, idx ! 2 * D + c, 0, idx ! 3]) (fsqrt (Fin (real D))))
                (elt keys [idx ! 0, idx ! 2 * D + c, 0, idx ! 1])))"
      unfolding sel by (rule 1)
    show "biased L = tab [B, K, H, Q] (\<lambda>idx.
           if elt amask [idx ! 0, idx ! 1] then elt (scores L) idx
           else if is_fin (elt (scores L) idx) \<or> elt (scores L) idx = NInf then NInf else NaN)"
      unfolding sel by (rule 2)
    show "probs L = tab [B, K, H, Q] (\<lambda>idx.
           let row = (\<lambda>j. elt (biased L) [idx ! 0, j, idx ! 2, idx ! 3]);
               largest = fmax_upto K row
           in fdiv (fexp (fsub (row (idx ! 1)) largest))
                   (fsum_upto K (\<lambda>j. fexp (fsub (row j) largest))))"
      unfolding sel by (rule 3)
  qed
qed

theorem attention_scores_witness:
  "\<exists>L. AttentionTorch_body ex_heads ex_keys ex_keys ex_queries ex_key_mask = Inr L
     \<and> scores L = tab [1, 3, 2, 2] (\<lambda>idx. fsum_upto 4 (\<lambda>c.
           fmul (fdiv (elt ex_queries [idx ! 0, idx ! 2 * 4 + c, 0, idx ! 3]) (fsqrt (Fin (real 4))))
                (elt ex_keys [idx ! 0, idx ! 2 * 4 + c, 0, idx ! 1])))
     \<and> biased L = tab [1, 3, 2, 2] (\<lambda>idx.
           if elt ex_key_mask [idx ! 0, idx ! 1] then elt (scores L) idx
           else if is_fin (elt (scores L) idx) \<or> elt (scores L) idx = NInf then NInf else NaN)
     \<and> probs L = tab [1, 3, 2, 2] (\<lambda>idx.
           let row = (\<lambda>j. elt (biased L) [idx ! 0, j, idx ! 2, idx ! 3]);
               largest = fmax_upto 3 row
           in fdiv (fexp (fsub (row (idx ! 1)) largest))
                   (fsum_upto 3 (\<lambda>j. fexp (fsub (row j) largest))))"
  using attention_scores [of ex_heads 2 4 1 3 2 ex_keys ex_keys ex_queries ex_key_mask]
  by (simp add: ex_heads_def ex_proj_def ex_keys_def ex_queries_def ex_key_mask_def)

lemma rnd_overflow: "2 ^ 128 \<le> x \<Longrightarrow> rnd x = PInf"
proof -
  assume "2 ^ 128 \<le> x"
  then have "nearest (2 ^ 128) \<le> nearest x"
    by (rule nearest_mono)
  moreover have "nearest (of_int (2 ^ 23) * 2 powi 105) = of_int (2 ^ 23) * 2 powi 105"
    by (rule nearest_rep) simp_all
  ultimately show ?thesis
    by (simp add: rnd_PInf)
qed

lemma rnd_two_64 [simp]: "rnd 18446744073709551616 = Fin 18446744073709551616"
  using rnd_rep [of 1 64] by simp

lemma ex_big_score:
  "att_score (Suc 0) ex_big ex_big_pair 0 k 0 0 = PInf" if "k < 2"
  using that
  by (simp add: att_score_def ex_big_def ex_big_pair_def elt_tab pow_half_def rnd_overflow)

text \<open>
  The score column of a masked key position is not always negative infinity: the product of
  the finite query \<open>2 ^ 64\<close> and the finite key \<open>2 ^ 64\<close> overflows to infinity, and
  infinity plus the bias of negative infinity is not a number.
\<close>

theorem attention_scores_counterexample:
  "local_elt biased (AttentionTorch_body ex_attention ex_big_pair ex_big_pair ex_big ex_pad_mask)
     [0, 1, 0, 0] = Some NaN"
proof -
  have "AttentionTorch_body ex_attention ex_big_pair ex_big_pair ex_big ex_pad_mask = Inr
          \<lparr>scores = tab [1, 2, 1, 1] (\<lambda>idx. att_score 1 ex_big ex_big_pair (idx ! 0) (idx ! 1) (idx ! 2) (idx ! 3)),
           biased = tab [1, 2, 1, 1] (\<lambda>idx. att_biased 1 ex_big ex_big_pair ex_pad_mask (idx ! 0) (idx ! 1) (idx ! 2) (idx ! 3)),
           probs = tab [1, 2, 1, 1] (\<lambda>idx. att_prob 1 2 ex_big ex_big_pair ex_pad_mask (idx ! 0) (idx ! 1) (idx ! 2) (idx ! 3)),
           mixed = tab [1, 1, 1, 1] (\<lambda>idx. att_mixed 1 2 ex_big ex_big_pair ex_big_pair ex_pad_mask (idx ! 0) (idx ! 1) (idx ! 2) (idx ! 3)),
           returned = tab [1, 1 * 1, 1, 1] (\<lambda>idx. att_out (weight_conv (out_proj ex_attention)) (1 * 1) 1 2 ex_big ex_big_pair ex_big_pair ex_pad_mask (idx ! 0) (idx ! 1) (idx ! 3))\<rparr>"
    by (rule AttentionTorch_body_eq)
      (simp_all add: ex_attention_def ex_conv_def ex_big_def ex_big_pair_def ex_pad_mask_def)
  then show ?thesis
    by (simp add: local_elt_def elt_tab att_biased_def ex_big_score ex_pad_mask_def)
qed

lemma attention_body_ok:
  assumes hc: "head_count self = int H" "embed_count self = int (H * D)" "head_dim self = int D"
      and pos: "0 < B" "0 < H" "0 < D" "0 < K" "0 < Q"
      and sk: "shape keys = [B, H * D, 1, K]"
      and sv: "shape values = [B, H * D, 1, K]" "wft values"
      and sq: "shape queries = [B, H * D, 1, Q]" "wft queries"
      and sm: "shape amask = [B, K]"
      and so: "shape (weight_conv (out_proj self)) = [H * D, H * D, 1, 1]"
  shows "\<exists>L. AttentionTorch_body self keys values queries amask = Inr L"
  unfolding AttentionTorch_body_eq [OF assms] by (rule exI) (rule refl)

lemma attention_locals:
  assumes hc: "head_count self = int H" "embed_count self = int (H * D)" "head_dim self = int D"
      and pos: "0 < B" "0 < H" "0 < D" "0 < K" "0 < Q"
      and sk: "shape keys = [B, H * D, 1, K]"
      and sv: "shape values = [B, H * D, 1, K]" "wft values"
      and sq: "shape queries = [B, H * D, 1, Q]" "wft queries"
      and sm: "shape amask = [B, K]"
      and so: "shape (weight_conv (out_proj self)) = [H * D, H * D, 1, 1]"
      and L: "AttentionTorch_body self keys values queries amask = Inr L"
  shows "scores L = tab [B, K, H, Q] (\<lambda>idx.
           att_score D queries keys (idx ! 0) (idx ! 1) (idx ! 2) (idx ! 3))"
    and "biased L = tab [B, K, H, Q] (\<lambda>idx.
           att_biased D queries keys amask (idx ! 0) (idx ! 1) (idx ! 2) (idx ! 3))"
    and "probs L = tab [B, K, H, Q] (\<lambda>idx.
           att_prob D K queries keys amask (idx ! 0) (idx ! 1) (idx ! 2) (idx ! 3))"
    and "mixed L = tab [B, D, H, Q] (\<lambda>idx.
           att_mixed D K queries keys values amask (idx ! 0) (idx ! 1) (idx ! 2) (idx ! 3))"
    and "returned L = tab [B, H * D, 1, Q] (\<lambda>idx.
           att_out (weight_conv (out_proj self)) (H * D) D K queries keys values amask
             (idx ! 0) (idx ! 1) (idx ! 3))"
proof -
  define L' where "L' = \<lparr>scores = tab [B, K, H, Q] (\<lambda>idx.
        att_score D queries keys (idx ! 0) (idx ! 1) (idx ! 2) (idx ! 3)),
      biased = tab [B, K, H, Q] (\<lambda>idx.
        att_biased D queries keys amask (idx ! 0) (idx ! 1) (idx ! 2) (idx ! 3)),
      probs = tab [B, K, H, Q] (\<lambda>idx.
        att_prob D K queries keys amask (idx ! 0) (idx ! 1) (idx ! 2) (idx ! 3)),
      mixed = tab [B, D, H, Q] (\<lambda>idx.
        att_mixed D K queries keys values amask (idx ! 0) (idx ! 1) (idx ! 2) (idx ! 3)),
      returned = tab [B, H * D, 1, Q] (\<lambda>idx.
        att_out (weight_conv (out_proj self)) (H * D) D K queries keys values amask
          (idx ! 0) (idx ! 1) (idx ! 3))\<rparr>"
  have "AttentionTorch_body self keys values queries amask = Inr L'"
    unfolding L'_def by (rule AttentionTorch_body_eq [OF hc pos sk sv sq sm so])
  then have "L = L'" using L by simp
  then show "scores L = tab [B, K, H, Q] (\<lambda>idx.
           att_score D queries keys (idx ! 0) (idx ! 1) (idx ! 2) (idx ! 3))"
    and "biased L = tab [B, K, H, Q] (\<lambda>idx.
           att_biased D queries keys amask (idx ! 0) (idx ! 1) (idx ! 2) (idx ! 3))"
    and "probs L = tab [B, K, H, Q] (\<lambda>idx.
           att_prob D K queries keys amask (idx ! 0) (idx ! 1) (idx ! 2) (idx ! 3))"
    and "mixed L = tab [B, D, H, Q] (\<lambda>idx.
           att_mixed D K queries keys values amask (idx ! 0) (idx ! 1) (idx ! 2) (idx ! 3))"
    and "returned L = tab [B, H * D, 1, Q] (\<lambda>idx.
           att_out (weight_conv (out_proj self)) (H * D) D K queries keys values amask
             (idx ! 0) (idx ! 1) (idx ! 3))"
    by (simp_all add: L'_def)
qed



lemma ex_heads_shapes:
  "head_count ex_heads = int 2" "embed_count ex_heads = int (2 * 4)" "head_dim ex_heads = int 4"
  "shape (weight_conv (out_proj ex_heads)) = [2 * 4, 2 * 4, 1, 1]"
  "shape ex_keys = [1, 2 * 4, 1, 3]" "wft ex_keys"
  "shape ex_queries = [1, 2 * 4, 1, 2]" "wft ex_queries"
  "shape ex_key_mask = [1, 3]"
  by (simp_all add: ex_heads_def ex_proj_def ex_keys_def ex_queries_def ex_key_mask_def)




section \<open>A single position\<close>

lemma att_prob_single:
  assumes "0 < D" and f: "is_fin (att_score D queries keys b 0 h i)" and m: "elt amask [b, 0]"
  shows "att_prob D (Suc 0) queries keys amask b 0 h i = Fin 1"
proof -
  obtain s where s: "att_score D queries keys b 0 h i = Fin s"
    using f by (auto simp: is_fin_conv)
  have "att_biased D queries keys amask b 0 h i = Fin s"
    by (simp add: att_biased_cases [OF assms(1)] m s)
  then show ?thesis
    by (simp add: att_prob_def att_largest_def fmax_upto_Suc fsub_def)
qed

lemma conv_single:
  assumes so: "shape (weight_conv self) = [Co, Ci, 1, 1]" and sx: "shape x = [B, Ci, 1, N]"
      and w: "wft x" and N: "0 < N"
  shows "Conv2d_forward self x
         = Inr (tab [B, Co, 1, N] (\<lambda>idx.
             fsum_upto Ci (\<lambda>i. fmul (elt (weight_conv self) [idx ! 1, i, 0, 0])
                                     (elt x [idx ! 0, i, 0, idx ! 3]))))"
proof -
  have "x = tab [B, Ci, 1, N] (elt x)"
    using tab_elt [OF w] sx by simp
  then show ?thesis
    using conv_tab [OF so N, of B "elt x"] by simp
qed

lemma single_position_aux:
  assumes hc: "head_count self = int H" "embed_count self = int (H * D)" "head_dim self = int D"
      and pos: "0 < B" "0 < H" "0 < D"
      and sk: "shape keys = [B, H * D, 1, 1]"
      and sv: "shape values = [B, H * D, 1, 1]" "wft values"
      and sq: "shape queries = [B, H * D, 1, 1]" "wft queries"
      and sm: "shape amask = [B, 1]"
      and so: "shape (weight_conv (out_proj self)) = [H * D, H * D, 1, 1]"
      and fv: "float32_tensor values"
      and all: "\<And>b. b < B \<Longrightarrow> elt amask [b, 0]"
  shows "\<exists>L. AttentionTorch_body self keys values queries amask = Inr L
     \<and> (finite_tensor (scores L) \<longrightarrow>
          mixed L = tab [B, D, H, 1] (\<lambda>idx. elt values [idx ! 0, idx ! 2 * D + idx ! 1, 0, 0])
        \<and> AttentionTorch_forward self keys values queries amask
            = Conv2d_forward (out_proj self) values)"
proof -
  have one: "(0::nat) < 1" by simp
  obtain L where L: "AttentionTorch_body self keys values queries amask = Inr L"
    using attention_body_ok [OF hc pos one one sk sv sq sm so] by blast
  note t = attention_locals [OF hc pos one one sk sv sq sm so L]
  have "mixed L = tab [B, D, H, 1] (\<lambda>idx. elt values [idx ! 0, idx ! 2 * D + idx ! 1, 0, 0])
        \<and> AttentionTorch_forward self keys values queries amask
            = Conv2d_forward (out_proj self) values"
    if fin: "finite_tensor (scores L)"
  proof -
    have f: "is_fin (att_score D queries keys b 0 h 0)" if "b < B" "h < H" for b h
    proof -
      have "is_fin (elt (scores L) [b, 0, h, 0])"
        using that by (intro finite_elt fin) (simp_all add: t(1))
      then show ?thesis
        using that by (simp add: t(1) elt_tab)
    qed
    have pr: "att_prob D (Suc 0) queries keys amask b 0 h 0 = Fin 1" if "b < B" "h < H" for b h
      using that by (intro att_prob_single pos f all)
    have mx: "att_mixed D (Suc 0) queries keys values amask b c h 0 = elt values [b, h * D + c, 0, 0]"
      if "b < B" "h < H" "c < D" for b c h
    proof -
      have "float32 (elt values [b, h * D + c, 0, 0])"
        using that by (intro float32_elt [OF fv sv(2)] head_valid [OF sv(1)]) simp_all
      then show ?thesis
        using that by (simp add: att_mixed_def pr fmul_one_left)
    qed
    have 1: "tab [B, D, H, 1] (\<lambda>idx.
          att_mixed D 1 queries keys values amask (idx ! 0) (idx ! 1) (idx ! 2) (idx ! 3))
        = tab [B, D, H, 1] (\<lambda>idx. elt values [idx ! 0, idx ! 2 * D + idx ! 1, 0, 0])"
      by (rule tab_cong) (clarsimp simp: valid_index4 mx)
    have ed: "e div D < H" if "e < H * D" for e
      using that pos by (simp add: less_mult_imp_div_less mult.commute)
    have 2: "tab [B, H * D, 1, 1] (\<lambda>idx.
          att_out (weight_conv (out_proj self)) (H * D) D 1 queries keys values amask
            (idx ! 0) (idx ! 1) (idx ! 3))
        = tab [B, H * D, 1, 1] (\<lambda>idx.
               fsum_upto (H * D) (\<lambda>i. fmul (elt (weight_conv (out_proj self)) [idx ! 1, i, 0, 0])
                                       (elt values [idx ! 0, i, 0, idx ! 3])))"
      using pos by (intro tab_cong) (clarsimp simp: valid_index4 att_out_def mx ed)
    show ?thesis
      unfolding AttentionTorch_forward_def L conv_single [OF so sv one]
      using 1 2 by (simp add: t(4,5))
  qed
  then show ?thesis
    using L by blast
qed

text \<open>
  Claim C9, as the code has it. For a single-position sequence whose mask is all true, whose
  values are float32 numbers and whose scores (one for each batch row and head) are finite,
  the softmax weight is one, so the attention-weighted sum of the values is the value
  projection of that position; what the attention returns is the output projection applied
  to that value projection.
\<close>

theorem single_position:
  assumes "head_count self = int H" "embed_count self = int (H * D)" "head_dim self = int D"
      and "0 < B" "0 < H" "0 < D"
      and "shape keys = [B, H * D, 1, 1]"
      and "shape values = [B, H * D, 1, 1]" "wft values"
      and "shape queries = [B, H * D, 1, 1]" "wft queries"
      and "shape amask = [B, 1]"
      and "shape (weight_conv (out_proj self)) = [H * D, H * D, 1, 1]"
      and "float32_tensor values"
      and "\<And>b. b < B \<Longrightarrow> elt amask [b, 0]"
  shows "\<exists>L. AttentionTorch_body self keys values queries amask = Inr L
     \<and> (finite_tensor (scores L) \<longrightarrow>
          mixed L = tab [B, D, H, 1] (\<lambda>idx. elt values [idx ! 0, idx ! 2 * D + idx ! 1, 0, 0])
        \<and> AttentionTorch_forward self keys values queries amask
            = Conv2d_forward (out_proj self) values)"
  using assms by (rule single_position_aux)

lemma ex_one_shapes:
  "shape ex_one_key = [1, 2 * 4, 1, 1]" "wft ex_one_key" "float32_tensor ex_one_key"
  "shape ex_one_query = [1, 2 * 4, 1, 1]" "wft ex_one_query"
  "shape ex_mask = [1, 1]"
  by (simp_all add: ex_one_key_def ex_one_query_def ex_mask_def float32_tab)

lemma ex_one_scores:
  "att_score 4 ex_one_query ex_one_key 0 0 h 0 = Fin 4" if "h < 2"
proof -
  have "h * 4 + c < 8" if "c < 4" for c
    using that \<open>h < 2\<close> by simp
  then have "att_score 4 ex_one_query ex_one_key 0 0 h 0 = fsum_upto 4 (\<lambda>c. Fin 1)"
    unfolding att_score_def
    by (intro fsum_upto_cong refl)
      (simp add: ex_one_query_def ex_one_key_def elt_tab pow_half_def)
  then show ?thesis
    by (simp add: eval_nat_numeral fsum_upto_Suc)
qed

theorem single_position_witness:
  "\<exists>L. AttentionTorch_body ex_heads ex_one_key ex_one_key ex_one_query ex_mask = Inr L
     \<and> finite_tensor (scores L)
     \<and> mixed L = tab [1, 4, 2, 1] (\<lambda>idx. elt ex_one_key [idx ! 0, idx ! 2 * 4 + idx ! 1, 0, 0])
     \<and> AttentionTorch_forward ex_heads ex_one_key ex_one_key ex_one_query ex_mask
            = Conv2d_forward (out_proj ex_heads) ex_one_key"
proof -
  have "\<exists>L. AttentionTorch_body ex_heads ex_one_key ex_one_key ex_one_query ex_mask = Inr L
     \<and> (finite_tensor (scores L) \<longrightarrow>
          mixed L = tab [1, 4, 2, 1] (\<lambda>idx. elt ex_one_key [idx ! 0, idx ! 2 * 4 + idx ! 1, 0, 0])
        \<and> AttentionTorch_forward ex_heads ex_one_key ex_one_key ex_one_query ex_mask
            = Conv2d_forward (out_proj ex_heads) ex_one_key)"
    by (rule single_position [of ex_heads 2 4 1 ex_one_key ex_one_key ex_one_query ex_mask])
      (simp_all add: ex_heads_shapes ex_one_shapes, simp add: ex_mask_def elt_tab)
  then obtain L where L: "AttentionTorch_body ex_heads ex_one_key ex_one_key ex_one_query ex_mask = Inr L"
    and c: "finite_tensor (scores L) \<longrightarrow>
          mixed L = tab [1, 4, 2, 1] (\<lambda>idx. elt ex_one_key [idx ! 0, idx ! 2 * 4 + idx ! 1, 0, 0])
        \<and> AttentionTorch_forward ex_heads ex_one_key ex_one_key ex_one_query ex_mask
            = Conv2d_forward (out_proj ex_heads) ex_one_key"
    by blast
  have "scores L = tab [1, 1, 2, 1] (\<lambda>idx.
           att_score 4 ex_one_query ex_one_key (idx ! 0) (idx ! 1) (idx ! 2) (idx ! 3))"
    by (rule attention_locals(1) [of ex_heads 2 4 1 1 1 ex_one_key ex_one_key ex_one_query
          ex_mask L]) (simp_all add: ex_heads_shapes ex_one_shapes L)
  moreover have "finite_tensor (tab [1, 1, 2, 1] (\<lambda>idx.
           att_score 4 ex_one_query ex_one_key (idx ! 0) (idx ! 1) (idx ! 2) (idx ! 3)))"
    by (rule finite_tab) (auto simp: valid_index4 ex_one_scores)
  ultimately have "finite_tensor (scores L)"
    by simp
  then show ?thesis
    using L c by blast
qed

lemma ex_state_shapes:
  "head_count ex_attention = int 1" "embed_count ex_attention = int (1 * 1)"
  "head_dim ex_attention = int 1"
  "shape (weight_conv (out_proj ex_attention)) = [1 * 1, 1 * 1, 1, 1]"
  "shape ex_state = [1, 1 * 1, 1, 1]" "wft ex_state" "float32_tensor ex_state"
  "shape ex_mask = [1, 1]"
  by (simp_all add: ex_attention_def ex_conv_def ex_state_def ex_mask_def float32_tab)

text \<open>
  The value returned is not the value projection itself: in the example the output
  projection doubles it.
\<close>

theorem single_position_counterexample:
  "AttentionTorch_forward ex_attention ex_state ex_state ex_state ex_mask \<noteq> Inr ex_state"
proof -
  have "\<exists>L. AttentionTorch_body ex_attention ex_state ex_state ex_state ex_mask = Inr L
     \<and> (finite_tensor (scores L) \<longrightarrow>
          mixed L = tab [1, 1, 1, 1] (\<lambda>idx. elt ex_state [idx ! 0, idx ! 2 * 1 + idx ! 1, 0, 0])
        \<and> AttentionTorch_forward ex_attention ex_state ex_state ex_state ex_mask
            = Conv2d_forward (out_proj ex_attention) ex_state)"
    by (rule single_position_aux [of ex_attention 1 1 1 ex_state ex_state ex_state ex_mask])
      (simp_all add: ex_state_shapes, simp add: ex_mask_def elt_tab)
  then obtain L where L: "AttentionTorch_body ex_attention ex_state ex_state ex_state ex_mask = Inr L"
    and c: "finite_tensor (scores L) \<longrightarrow>
        AttentionTorch_forward ex_attention ex_state ex_state ex_state ex_mask
            = Conv2d_forward (out_proj ex_attention) ex_state"
    by blast
  have "scores L = tab [1, 1, 1, 1] (\<lambda>idx.
           att_score 1 ex_state ex_state (idx ! 0) (idx ! 1) (idx ! 2) (idx ! 3))"
    by (rule attention_locals(1) [of ex_attention 1 1 1 1 1 ex_state ex_state ex_state
          ex_mask L]) (simp_all add: ex_state_shapes L)
  moreover have "finite_tensor (tab [1, 1, 1, 1] (\<lambda>idx.
           att_score 1 ex_state ex_state (idx ! 0) (idx ! 1) (idx ! 2) (idx ! 3)))"
    by (rule finite_tab)
      (auto simp: valid_index4 att_score_def ex_state_def elt_tab pow_half_def)
  ultimately have a: "AttentionTorch_forward ex_attention ex_state ex_state ex_state ex_mask
        = Conv2d_forward ex_conv ex_state"
    using c by (simp add: ex_attention_def)
  have "Conv2d_forward ex_conv ex_state = Inr (tab [1, 1, 1, 1] (\<lambda>idx.
             fsum_upto 1 (\<lambda>i. fmul (elt (weight_conv ex_conv) [idx ! 1, i, 0, 0])
                                     (elt ex_state [idx ! 0, i, 0, idx ! 3]))))"
    by (rule conv_single) (simp_all add: ex_conv_def ex_state_def)
  moreover have "elt (tab [1, 1, 1, 1] (\<lambda>idx.
             fsum_upto 1 (\<lambda>i. fmul (elt (weight_conv ex_conv) [idx ! 1, i, 0, 0])
                                     (elt ex_state [idx ! 0, i, 0, idx ! 3])))) [0, 0, 0, 0] = Fin 2"
    by (simp add: elt_tab ex_conv_def ex_state_def)
  moreover have "elt ex_state [0, 0, 0, 0] = Fin 1"
    by (simp add: elt_tab ex_state_def)
  ultimately show ?thesis
    unfolding a by auto
qed

section \<open>Tensors as families of vectors\<close>

lemma valid_index_snoc:
  "valid_index (p @ [n]) idx \<longleftrightarrow> (\<exists>pidx i. idx = pidx @ [i] \<and> valid_index p pidx \<and> i < n)"
proof (induction p arbitrary: idx)
  case Nil
  show ?case by (auto simp: valid_index1)
next
  case (Cons d p)
  show ?case
  proof
    assume "valid_index ((d # p) @ [n]) idx"
    then obtain j r where idx: "idx = j # r" "j < d" "valid_index (p @ [n]) r"
      by (auto elim: valid_index_ConsE)
    then obtain pidx i where "r = pidx @ [i]" "valid_index p pidx" "i < n"
      using Cons.IH by auto
    then show "\<exists>pidx i. idx = pidx @ [i] \<and> valid_index (d # p) pidx \<and> i < n"
      using idx by (intro exI [of _ "j # pidx"] exI [of _ i]) simp
  next
    assume "\<exists>pidx i. idx = pidx @ [i] \<and> valid_index (d # p) pidx \<and> i < n"
    then obtain pidx i where a: "idx = pidx @ [i]" "valid_index (d # p) pidx" "i < n"
      by auto
    then obtain j r where "pidx = j # r" "j < d" "valid_index p r"
      by (auto elim: valid_index_ConsE)
    then show "valid_index ((d # p) @ [n]) idx"
      using a Cons.IH [of "r @ [i]"] by auto
  qed
qed

lemma shape_rows [simp]: "shape (rows p n F) = p @ [n]"
  by (simp add: rows_def)

lemma wft_rows [simp]: "wft (rows p n F)"
  by (simp add: rows_def)

lemma elt_rows:
  "valid_index p pidx \<Longrightarrow> i < n \<Longrightarrow> elt (rows p n F) (pidx @ [i]) = F pidx ! i"
  by (simp add: rows_def elt_tab valid_index_snoc)

lemma rows_cong:
  assumes "\<And>pidx. valid_index p pidx \<Longrightarrow> F pidx = G pidx"
  shows "rows p n F = rows p n G"
  unfolding rows_def
  by (rule tab_cong) (auto simp: valid_index_snoc assms)

lemma row_at_rows:
  assumes "valid_index p pidx" "length (F pidx) = n"
  shows "row_at (rows p n F) pidx = F pidx"
  using assms by (auto simp: row_at_def elt_rows intro!: nth_equalityI)

lemma rows_row_at:
  assumes "wft x" "shape x = p @ [n]"
  shows "rows p n (row_at x) = x"
proof -
  have "tab (p @ [n]) (\<lambda>idx. row_at x (butlast idx) ! last idx) = tab (p @ [n]) (elt x)"
    by (rule tab_cong) (auto simp: valid_index_snoc row_at_def assms(2))
  then show ?thesis
    using tab_elt [OF assms(1)] by (simp add: rows_def assms(2))
qed

lemma tab_rows:
  assumes "\<And>pidx i. valid_index p pidx \<Longrightarrow> i < n \<Longrightarrow> f (pidx @ [i]) = F pidx ! i"
  shows "tab (p @ [n]) f = rows p n F"
  unfolding rows_def
  by (rule tab_cong) (auto simp: valid_index_snoc assms)

lemma last_axis_rows:
  assumes "valid_index p pidx" "length (F pidx) = n"
  shows "last_axis (rows p n F) (pidx @ [i]) = F pidx"
  using row_at_rows [of p pidx F n] assms by (simp add: last_axis_def row_at_def)

lemma length_vec_layer_norm [simp]: "length (vec_layer_norm nrm xs) = length xs"
  by (simp add: vec_layer_norm_def)

lemma length_vec_linear [simp]: "length (vec_linear l xs) = hd (shape (weight_fc l))"
  by (simp add: vec_linear_def)

lemma LayerNorm_rows:
  assumes w: "shape (weight_ln nrm) = [n]"
      and len: "\<And>pidx. valid_index p pidx \<Longrightarrow> length (F pidx) = n"
  shows "LayerNorm_forward nrm (rows p n F) = Inr (rows p n (\<lambda>pidx. vec_layer_norm nrm (F pidx)))"
proof -
  have "tab (p @ [n]) (\<lambda>idx.
             let row = last_axis (rows p n F) idx in
             fadd (fmul (fdiv (fsub (elt (rows p n F) idx) (mean row))
                              (fsqrt (fadd (variance row) (rnd (eps nrm)))))
                        (elt (weight_ln nrm) [last idx]))
                  (elt (bias_ln nrm) [last idx]))
        = rows p n (\<lambda>pidx. vec_layer_norm nrm (F pidx))"
    by (rule tab_rows) (simp add: last_axis_rows len elt_rows vec_layer_norm_def Let_def)
  then show ?thesis
    by (simp add: LayerNorm_forward_def w)
qed

lemma Linear_rows:
  assumes w: "shape (weight_fc l) = [m, n]"
      and len: "\<And>pidx. valid_index p pidx \<Longrightarrow> length (F pidx) = n"
  shows "Linear_forward l (rows p n F) = Inr (rows p m (\<lambda>pidx. vec_linear l (F pidx)))"
proof -
  have "tab (p @ [m]) (\<lambda>idx.
           fsum_upto n (\<lambda>i. fmul (elt (rows p n F) (butlast idx @ [i]))
                                  (elt (weight_fc l) [last idx, i])))
        = rows p m (\<lambda>pidx. vec_linear l (F pidx))"
    by (rule tab_rows) (simp add: elt_rows vec_linear_def w len)
  then show ?thesis
    by (simp add: Linear_forward_def w)
qed

lemma GELU_rows:
  assumes len: "\<And>pidx. valid_index p pidx \<Longrightarrow> length (F pidx) = n"
  shows "GELU_forward (rows p n F) = rows p n (\<lambda>pidx. map gelu_fl (F pidx))"
  unfolding GELU_forward_def pointwise_def shape_rows
  by (rule tab_rows) (simp add: elt_rows len)

lemma broadcast_rev_same: "broadcast_rev s s = Inr s"
  by (induction s) auto

lemma broadcast_same: "broadcast_shapes s s = Inr s"
  by (simp add: broadcast_shapes_def broadcast_rev_same)

lemma map2_pick: "valid_index s idx \<Longrightarrow> map2 pick s idx = idx"
  by (induction s idx rule: valid_index.induct) auto

lemma bidx_same: "valid_index s idx \<Longrightarrow> bidx s idx = idx"
  using valid_index_length [of s idx] by (simp add: bidx_def map2_pick)

lemma binary_rows:
  assumes lf: "\<And>pidx. valid_index p pidx \<Longrightarrow> length (F pidx) = n"
      and lg: "\<And>pidx. valid_index p pidx \<Longrightarrow> length (G pidx) = n"
  shows "binary f (rows p n F) (rows p n G) = Inr (rows p n (\<lambda>pidx. map2 f (F pidx) (G pidx)))"
proof -
  have "tab (p @ [n]) (\<lambda>idx. f (elt (rows p n F) (bidx (p @ [n]) idx))
                              (elt (rows p n G) (bidx (p @ [n]) idx)))
        = rows p n (\<lambda>pidx. map2 f (F pidx) (G pidx))"
  proof (rule tab_rows)
    fix pidx i assume a: "valid_index p pidx" "i < n"
    then have "valid_index (p @ [n]) (pidx @ [i])"
      by (auto simp: valid_index_snoc)
    then show "f (elt (rows p n F) (bidx (p @ [n]) (pidx @ [i])))
                 (elt (rows p n G) (bidx (p @ [n]) (pidx @ [i])))
               = map2 f (F pidx) (G pidx) ! i"
      using a by (simp add: bidx_same elt_rows lf lg)
  qed
  then show ?thesis
    by (simp add: binary_def broadcast_same)
qed

section \<open>The gated feed-forward unit\<close>

lemma GLU_rows:
  assumes g: "GLU_shapes g E M"
      and len: "\<And>pidx. valid_index p pidx \<Longrightarrow> length (F pidx) = E"
  shows "GLUTorch_forward g (rows p E F) = Inr (rows p E (\<lambda>pidx. vec_glu g (F pidx)))"
proof -
  let ?z = "\<lambda>pidx. vec_layer_norm (ln0 g) (F pidx)"
  let ?a = "\<lambda>pidx. vec_linear (fc0 g) (?z pidx)"
  let ?b = "\<lambda>pidx. vec_linear (fc1 g) (?z pidx)"
  let ?ab = "\<lambda>pidx. map2 fmul (map gelu_fl (?a pidx)) (?b pidx)"
  let ?n = "\<lambda>pidx. vec_layer_norm (ln1 g) (?ab pidx)"
  from g have s: "shape (weight_ln (ln0 g)) = [E]" "shape (weight_ln (ln1 g)) = [M]"
      "shape (weight_fc (fc0 g)) = [M, E]" "shape (weight_fc (fc1 g)) = [M, E]"
      "shape (weight_fc (fc2 g)) = [E, M]"
    by (simp_all add: GLU_shapes_def)
  have 1: "LayerNorm_forward (ln0 g) (rows p E F) = Inr (rows p E ?z)"
    by (rule LayerNorm_rows [OF s(1) len])
  have 2: "Linear_forward (fc0 g) (rows p E ?z) = Inr (rows p M ?a)"
    by (rule Linear_rows [OF s(3)]) (simp add: len)
  have 3: "GELU_forward (rows p M ?a) = rows p M (\<lambda>pidx. map gelu_fl (?a pidx))"
    by (rule GELU_rows) (simp add: s)
  have 4: "Linear_forward (fc1 g) (rows p E ?z) = Inr (rows p M ?b)"
    by (rule Linear_rows [OF s(4)]) (simp add: len)
  have 5: "mul (rows p M (\<lambda>pidx. map gelu_fl (?a pidx))) (rows p M ?b) = Inr (rows p M ?ab)"
    unfolding mul_def by (rule binary_rows) (simp_all add: s)
  have 6: "LayerNorm_forward (ln1 g) (rows p M ?ab) = Inr (rows p M ?n)"
    by (rule LayerNorm_rows [OF s(2)]) (simp add: s)
  have 7: "Linear_forward (fc2 g) (rows p M ?n)
           = Inr (rows p E (\<lambda>pidx. vec_linear (fc2 g) (?n pidx)))"
    by (rule Linear_rows [OF s(5)]) (simp add: s)
  show ?thesis
    unfolding GLUTorch_forward_def
    by (simp only: 1 2 3 4 5 6 7 bindE_Inr Let_def vec_glu_def)
qed

lemma length_row_at: "length (row_at x pidx) = last (shape x)"
  by (simp add: row_at_def)

lemma GLU_forward_eq:
  assumes g: "GLU_shapes g E M" and x: "shape x = p @ [E]" "wft x"
  shows "GLUTorch_forward g x = Inr (rows p E (\<lambda>pidx. vec_glu g (row_at x pidx)))"
proof -
  have "GLUTorch_forward g (rows p E (row_at x))
        = Inr (rows p E (\<lambda>pidx. vec_glu g (row_at x pidx)))"
    by (rule GLU_rows [OF g]) (simp add: length_row_at x)
  then show ?thesis
    by (simp add: rows_row_at [OF x(2,1)])
qed

text \<open>
  Claim C4. On every input whose last dimension is the embedding dimension, the gated
  feed-forward block computes, for each position: the layer normalization of the input; two
  bias-free linear projections of the normalized input into the middle dimension; GELU of the
  first projection only; the elementwise product of the activated first projection and the
  raw second one; a second layer normalization, over the middle dimension; and a third
  bias-free linear projection back to the embedding dimension.
\<close>

theorem gated_feed_forward:
  assumes "GLU_shapes g E M" and "shape x = p @ [E]" and "wft x"
  shows "GLUTorch_forward g x = Inr (rows p E (\<lambda>pidx.
           let z = vec_layer_norm (ln0 g) (row_at x pidx);
               a = vec_linear (fc0 g) z;
               b = vec_linear (fc1 g) z;
               c = map2 fmul (map gelu_fl a) b
           in vec_linear (fc2 g) (vec_layer_norm (ln1 g) c)))
     \<and> (\<forall>pidx. length (vec_linear (fc0 g) (vec_layer_norm (ln0 g) (row_at x pidx))) = M
              \<and> length (vec_linear (fc1 g) (vec_layer_norm (ln0 g) (row_at x pidx))) = M)"
  using GLU_forward_eq [OF assms] assms(1) by (simp add: vec_glu_def Let_def GLU_shapes_def)

theorem gated_feed_forward_witness:
  "GLUTorch_forward ex_glu ex_hidden = Inr (rows [1, 1] 1 (\<lambda>pidx.
           let z = vec_layer_norm (ln0 ex_glu) (row_at ex_hidden pidx);
               a = vec_linear (fc0 ex_glu) z;
               b = vec_linear (fc1 ex_glu) z;
               c = map2 fmul (map gelu_fl a) b
           in vec_linear (fc2 ex_glu) (vec_layer_norm (ln1 ex_glu) c)))
     \<and> (\<forall>pidx. length (vec_linear (fc0 ex_glu) (vec_layer_norm (ln0 ex_glu) (row_at ex_hidden pidx))) = 1
              \<and> length (vec_linear (fc1 ex_glu) (vec_layer_norm (ln0 ex_glu) (row_at ex_hidden pidx))) = 1)"
  using gated_feed_forward [of ex_glu 1 1 ex_hidden "[1, 1]"]
  by (simp add: GLU_shapes_def ex_glu_def ex_norm_def ex_linear_def ex_hidden_def)

text \<open>
  Claim C8. The gated feed-forward block and the attention are shape preserving: on inputs
  whose shapes fit the configured dimensions, the output has the shape of the input (for the
  attention, of the queries; keys and values may have another number of positions).
\<close>

theorem shape_preserving:
  assumes "GLU_shapes g E M" and "shape x = p @ [E]" and "wft x"
      and "head_count self = int H" "embed_count self = int (H * D)" "head_dim self = int D"
      and "0 < B" "0 < H" "0 < D" "0 < K" "0 < Q"
      and "shape keys = [B, H * D, 1, K]"
      and "shape values = [B, H * D, 1, K]" "wft values"
      and "shape queries = [B, H * D, 1, Q]" "wft queries"
      and "shape amask = [B, K]"
      and "shape (weight_conv (out_proj self)) = [H * D, H * D, 1, 1]"
  shows "(\<exists>y. GLUTorch_forward g x = Inr y \<and> shape y = shape x)
     \<and> (\<exists>y. AttentionTorch_forward self keys values queries amask = Inr y
             \<and> shape y = shape queries)"
proof -
  have "\<exists>y. GLUTorch_forward g x = Inr y \<and> shape y = shape x"
    using GLU_forward_eq [OF assms(1,2,3)] assms(2) by simp
  moreover have "\<exists>y. AttentionTorch_forward self keys values queries amask = Inr y
             \<and> shape y = shape queries"
    unfolding AttentionTorch_forward_def
      AttentionTorch_body_eq [OF assms(4-18)]
    using assms(15) by simp
  ultimately show ?thesis by simp
qed

theorem shape_preserving_witness:
  "(\<exists>y. GLUTorch_forward ex_glu ex_hidden = Inr y \<and> shape y = shape ex_hidden)
     \<and> (\<exists>y. AttentionTorch_forward ex_attention ex_state ex_state ex_state ex_mask = Inr y
             \<and> shape y = shape ex_state)"
  using shape_preserving [of ex_glu 1 1 ex_hidden "[1, 1]" ex_attention 1 1 1 1 1
      ex_state ex_state ex_state ex_mask]
  by (simp add: GLU_shapes_def ex_glu_def ex_norm_def ex_linear_def ex_hidden_def
      ex_attention_def ex_conv_def ex_state_def ex_mask_def)

end
